theory Spec2Isabelle
  imports Main "HOL-Library.AList" "HOL-Library.Sublist"
begin

section \<open>Definition documents\<close>

text \<open>
  A state machine definition is the value a YAML/JSON reader hands to the plugin: null, a
  boolean, a number, a string, an array or an object. These are the values of the model;
  a value of another kind (the date that a YAML reader makes of a timestamp, say) is not
  among them. An object is kept as the list of its
  own enumerable properties in enumeration order (the order of \<^verbatim>\<open>for ... in\<close>,
  \<^verbatim>\<open>Object.keys\<close> and \<^verbatim>\<open>JSON.stringify\<close>); a JavaScript object has every key once.

  A number is a double: not a number, one of the two infinities, or finite. A finite double
  is kept as the decimal number that names it in JavaScript: \<open>Decimal s e\<close> is
  \<open>s * 10 ^ e\<close>, where the digits of \<open>s\<close> are the digits of the shortest decimal that
  reads back as that double (the digits from which \<^verbatim>\<open>Number::toString\<close> prints it).
  Zero is \<open>Decimal 0 0\<close>; nothing the compiler does tells the two zeros apart. The model
  has every decimal number, also those that no double has for its shortest decimal.
\<close>

datatype number =
    Decimal int int
  | NaN
  | PositiveInfinity
  | NegativeInfinity

datatype json =
    JNull
  | JBool bool
  | JNum number
  | JStr string
  | JArr "json list"
  | JObj "(string \<times> json) list"

text \<open>
  Modelled from the spec: \<^verbatim>\<open>isIntrinsic\<close> is imported from \<^verbatim>\<open>utils/aws\<close>, which is not
  among the sources. The spec calls an intrinsic reference node "a mapping recognized by a
  predicate (structural shape, e.g. a single well-known key naming a platform function)".
  The predicate on the key list of a mapping is the parameter \<open>shape\<close>; nothing but a
  mapping is an intrinsic reference.
\<close>

definition isIntrinsic :: "(string list \<Rightarrow> bool) \<Rightarrow> json \<Rightarrow> bool" where
  "isIntrinsic shape v = (case v of JObj kvs \<Rightarrow> shape (map fst kvs) | _ \<Rightarrow> False)"

text \<open>
  The shape of the CloudFormation intrinsic functions, used at concrete inputs: a mapping
  with a key \<^verbatim>\<open>Ref\<close> or a key that starts with \<^verbatim>\<open>Fn::\<close>.
\<close>

definition cfnShape :: "string list \<Rightarrow> bool" where
  "cfnShape keys = list_ex (\<lambda>k. k = ''Ref'' \<or> take 4 k = ''Fn::'') keys"

section \<open>Parameter names\<close>

text \<open>
  \<^verbatim>\<open>randomName\<close> asks \<^verbatim>\<open>chance.string\<close> for ten characters of the pool below (the
  pool of the source, which has \<^verbatim>\<open>f\<close> where the alphabet has \<^verbatim>\<open>v\<close>). The random source
  is the sequence \<open>rnd\<close> of naturals; the state threaded through the compiler is the number
  of names drawn so far, and the \<open>n\<close>-th name reads the ten draws from \<open>10 * n\<close> on.
\<close>

definition pool :: string where
  "pool = ''abcdefghijklmnopqrstufwxyzABCDEFGHIJKLMNOPQRSTUFWXYZ1234567890''"

definition randomName :: "(nat \<Rightarrow> nat) \<Rightarrow> nat \<Rightarrow> string" where
  "randomName rnd n = map (\<lambda>j. pool ! (rnd (10 * n + j) mod length pool)) [0..<10]"

text \<open>
  The text written where a reference stood: a dollar sign and the parameter name in braces.
\<close>

definition marker :: "string \<Rightarrow> string" where
  "marker paramName = ''${'' @ paramName @ ''}''"

section \<open>The intrinsic extractor\<close>

text \<open>
  \<^verbatim>\<open>getIntrinsicFunctions(obj)\<close> mutates \<open>obj\<close> and yields pairs; every caller drains the
  generator with \<^verbatim>\<open>Array.from\<close>. The model returns the mutated value, the pairs in the
  order they are yielded and the number of names drawn.

  \<^item> \<open>getIntrinsicFunctions\<close> is the function: the \<^verbatim>\<open>for (const key in obj)\<close> loop runs
    over the properties of an object (\<open>visitProps\<close>) and over the indices of an array
    (\<open>visitItems\<close>); null, numbers and booleans have no property; the properties of a
    string are its one-character strings, on which no branch of the body does anything.
  \<^item> \<open>visitValue\<close> is the body of the loop for \<^verbatim>\<open>value = obj[key]\<close>: an array, else an
    intrinsic reference, else \<^verbatim>\<open>typeof value === 'object'\<close> (a mapping or null). The
    first component of its result is what \<^verbatim>\<open>obj[key]\<close> holds afterwards.
  \<^item> \<open>visitElements\<close> is the inner loop \<^verbatim>\<open>for (const idx in value)\<close> of the array branch:
    it calls \<^verbatim>\<open>getIntrinsicFunctions(value[idx])\<close> on each element.
\<close>

type_synonym pairs = "(string \<times> json) list"

function (sequential) getIntrinsicFunctions ::
    "(string list \<Rightarrow> bool) \<Rightarrow> (nat \<Rightarrow> nat) \<Rightarrow> json \<Rightarrow> nat \<Rightarrow> json \<times> pairs \<times> nat"
  and visitValue ::
    "(string list \<Rightarrow> bool) \<Rightarrow> (nat \<Rightarrow> nat) \<Rightarrow> json \<Rightarrow> nat \<Rightarrow> json \<times> pairs \<times> nat"
  and visitProps ::
    "(string list \<Rightarrow> bool) \<Rightarrow> (nat \<Rightarrow> nat) \<Rightarrow> (string \<times> json) list \<Rightarrow> nat
      \<Rightarrow> (string \<times> json) list \<times> pairs \<times> nat"
  and visitItems ::
    "(string list \<Rightarrow> bool) \<Rightarrow> (nat \<Rightarrow> nat) \<Rightarrow> json list \<Rightarrow> nat \<Rightarrow> json list \<times> pairs \<times> nat"
  and visitElements ::
    "(string list \<Rightarrow> bool) \<Rightarrow> (nat \<Rightarrow> nat) \<Rightarrow> json list \<Rightarrow> nat \<Rightarrow> json list \<times> pairs \<times> nat"
where
  "getIntrinsicFunctions shape rnd (JObj kvs) n =
     (case visitProps shape rnd kvs n of (kvs', ps, n') \<Rightarrow> (JObj kvs', ps, n'))"
| "getIntrinsicFunctions shape rnd (JArr xs) n =
     (case visitItems shape rnd xs n of (xs', ps, n') \<Rightarrow> (JArr xs', ps, n'))"
| "getIntrinsicFunctions shape rnd (JStr s) n = (JStr s, [], n)"
| "getIntrinsicFunctions shape rnd (JNum x) n = (JNum x, [], n)"
| "getIntrinsicFunctions shape rnd (JBool b) n = (JBool b, [], n)"
| "getIntrinsicFunctions shape rnd JNull n = (JNull, [], n)"
| "visitValue shape rnd (JArr xs) n =
     (case visitElements shape rnd xs n of (xs', ps, n') \<Rightarrow> (JArr xs', ps, n'))"
| "visitValue shape rnd (JObj kvs) n =
     (if isIntrinsic shape (JObj kvs)
      then (JStr (marker (randomName rnd n)), [(randomName rnd n, JObj kvs)], Suc n)
      else getIntrinsicFunctions shape rnd (JObj kvs) n)"
| "visitValue shape rnd JNull n = getIntrinsicFunctions shape rnd JNull n"
| "visitValue shape rnd (JStr s) n = (JStr s, [], n)"
| "visitValue shape rnd (JNum x) n = (JNum x, [], n)"
| "visitValue shape rnd (JBool b) n = (JBool b, [], n)"
| "visitProps shape rnd [] n = ([], [], n)"
| "visitProps shape rnd ((key, v) # rest) n =
     (case visitValue shape rnd v n of (v', ps, n') \<Rightarrow>
      (case visitProps shape rnd rest n' of (rest', qs, n'') \<Rightarrow>
        ((key, v') # rest', ps @ qs, n'')))"
| "visitItems shape rnd [] n = ([], [], n)"
| "visitItems shape rnd (v # rest) n =
     (case visitValue shape rnd v n of (v', ps, n') \<Rightarrow>
      (case visitItems shape rnd rest n' of (rest', qs, n'') \<Rightarrow>
        (v' # rest', ps @ qs, n'')))"
| "visitElements shape rnd [] n = ([], [], n)"
| "visitElements shape rnd (x # rest) n =
     (case getIntrinsicFunctions shape rnd x n of (x', ps, n') \<Rightarrow>
      (case visitElements shape rnd rest n' of (rest', qs, n'') \<Rightarrow>
        (x' # rest', ps @ qs, n'')))"
  by pat_completeness auto

termination
  by (relation "measure (\<lambda>a. case a of
        Inl (Inl (_, _, v, _)) \<Rightarrow> 2 * size v
      | Inl (Inr (_, _, v, _)) \<Rightarrow> 2 * size v + 1
      | Inr (Inl (_, _, kvs, _)) \<Rightarrow> 2 * size_list (size_prod (\<lambda>_. 0) size) kvs + 1
      | Inr (Inr (Inl (_, _, xs, _))) \<Rightarrow> 2 * size_list size xs + 1
      | Inr (Inr (Inr (_, _, xs, _))) \<Rightarrow> 2 * size_list size xs + 1)") auto

text \<open>
  Some node reachable from \<open>v\<close>, the root included, matches the intrinsic reference
  predicate.
\<close>

primrec hasIntrinsic :: "(string list \<Rightarrow> bool) \<Rightarrow> json \<Rightarrow> bool"
  and hasIntrinsicProps :: "(string list \<Rightarrow> bool) \<Rightarrow> (string \<times> json) list \<Rightarrow> bool"
  and hasIntrinsicProp :: "(string list \<Rightarrow> bool) \<Rightarrow> string \<times> json \<Rightarrow> bool"
  and hasIntrinsicList :: "(string list \<Rightarrow> bool) \<Rightarrow> json list \<Rightarrow> bool"
where
  "hasIntrinsic shape (JObj kvs) = (shape (map fst kvs) \<or> hasIntrinsicProps shape kvs)"
| "hasIntrinsic shape (JArr xs) = hasIntrinsicList shape xs"
| "hasIntrinsic shape (JStr s) = False"
| "hasIntrinsic shape (JNum x) = False"
| "hasIntrinsic shape (JBool b) = False"
| "hasIntrinsic shape JNull = False"
| "hasIntrinsicProps shape [] = False"
| "hasIntrinsicProps shape (kv # rest) =
     (hasIntrinsicProp shape kv \<or> hasIntrinsicProps shape rest)"
| "hasIntrinsicProp shape (key, v) = hasIntrinsic shape v"
| "hasIntrinsicList shape [] = False"
| "hasIntrinsicList shape (x # rest) = (hasIntrinsic shape x \<or> hasIntrinsicList shape rest)"

text \<open>
  No value of a key of a mapping reachable from \<open>v\<close> matches the intrinsic reference
  predicate. The root and the elements of arrays are looked into, not looked at.
\<close>

primrec cleanObj :: "(string list \<Rightarrow> bool) \<Rightarrow> json \<Rightarrow> bool"
  and cleanProps :: "(string list \<Rightarrow> bool) \<Rightarrow> (string \<times> json) list \<Rightarrow> bool"
  and cleanProp :: "(string list \<Rightarrow> bool) \<Rightarrow> string \<times> json \<Rightarrow> bool"
  and cleanList :: "(string list \<Rightarrow> bool) \<Rightarrow> json list \<Rightarrow> bool"
where
  "cleanObj shape (JObj kvs) = cleanProps shape kvs"
| "cleanObj shape (JArr xs) = cleanList shape xs"
| "cleanObj shape (JStr s) = True"
| "cleanObj shape (JNum x) = True"
| "cleanObj shape (JBool b) = True"
| "cleanObj shape JNull = True"
| "cleanProps shape [] = True"
| "cleanProps shape (kv # rest) = (cleanProp shape kv \<and> cleanProps shape rest)"
| "cleanProp shape (key, v) = (\<not> isIntrinsic shape v \<and> cleanObj shape v)"
| "cleanList shape [] = True"
| "cleanList shape (x # rest) = (cleanObj shape x \<and> cleanList shape rest)"

text \<open>
  The pair sequence \<open>ps\<close> holds a name whose marker string is \<open>v'\<close>, with the reference \<open>v\<close>.
\<close>

definition isReplacement :: "pairs \<Rightarrow> json \<Rightarrow> json \<Rightarrow> bool" where
  "isReplacement ps v v' =
     list_ex (\<lambda>(paramName, ref). v' = JStr (marker paramName) \<and> ref = v) ps"

text \<open>
  What extraction with the pair sequence \<open>ps\<close> makes of a tree, position by position.

  \<^item> \<open>replacedObj\<close> relates a tree that is entered (the root, and every tree the extractor
    is called on) to what it is afterwards: a mapping keeps its keys in their order and an
    array its length, their values are related as values, and any other value is as it was.
    A tree that is entered is never exchanged for a marker.
  \<^item> \<open>replacedValue\<close> relates the value of a key, or of an index of an array that is
    entered, to what stands there afterwards: for an intrinsic reference the marker string of
    a name that \<open>ps\<close> holds with that very reference, for another mapping that mapping
    entered, for an array the array with its elements related as elements, for any other
    value the value itself.
  \<^item> \<open>replacedElements\<close> relates the elements of an array that is the value of a key. An
    element is entered; for an element that is itself an intrinsic reference the relation
    also allows the marker of a name held in \<open>ps\<close>, so that it says nothing on whether
    such an element is replaced.
\<close>

function (sequential) replacedObj ::
    "(string list \<Rightarrow> bool) \<Rightarrow> pairs \<Rightarrow> json \<Rightarrow> json \<Rightarrow> bool"
  and replacedValue :: "(string list \<Rightarrow> bool) \<Rightarrow> pairs \<Rightarrow> json \<Rightarrow> json \<Rightarrow> bool"
  and replacedProps ::
    "(string list \<Rightarrow> bool) \<Rightarrow> pairs \<Rightarrow> (string \<times> json) list \<Rightarrow> (string \<times> json) list
      \<Rightarrow> bool"
  and replacedItems :: "(string list \<Rightarrow> bool) \<Rightarrow> pairs \<Rightarrow> json list \<Rightarrow> json list \<Rightarrow> bool"
  and replacedElements ::
    "(string list \<Rightarrow> bool) \<Rightarrow> pairs \<Rightarrow> json list \<Rightarrow> json list \<Rightarrow> bool"
where
  "replacedObj shape ps (JObj kvs) v' =
     (case v' of JObj kvs' \<Rightarrow> replacedProps shape ps kvs kvs' | _ \<Rightarrow> False)"
| "replacedObj shape ps (JArr xs) v' =
     (case v' of JArr xs' \<Rightarrow> replacedItems shape ps xs xs' | _ \<Rightarrow> False)"
| "replacedObj shape ps v v' = (v' = v)"
| "replacedValue shape ps (JArr xs) v' =
     (case v' of JArr xs' \<Rightarrow> replacedElements shape ps xs xs' | _ \<Rightarrow> False)"
| "replacedValue shape ps (JObj kvs) v' =
     (if isIntrinsic shape (JObj kvs) then isReplacement ps (JObj kvs) v'
      else replacedObj shape ps (JObj kvs) v')"
| "replacedValue shape ps v v' = (v' = v)"
| "replacedProps shape ps [] kvs' = (kvs' = [])"
| "replacedProps shape ps ((key, v) # rest) kvs' =
     (case kvs' of
        [] \<Rightarrow> False
      | (key', v') # rest' \<Rightarrow>
          key' = key \<and> replacedValue shape ps v v' \<and> replacedProps shape ps rest rest')"
| "replacedItems shape ps [] xs' = (xs' = [])"
| "replacedItems shape ps (v # rest) xs' =
     (case xs' of
        [] \<Rightarrow> False
      | v' # rest' \<Rightarrow> replacedValue shape ps v v' \<and> replacedItems shape ps rest rest')"
| "replacedElements shape ps [] xs' = (xs' = [])"
| "replacedElements shape ps (x # rest) xs' =
     (case xs' of
        [] \<Rightarrow> False
      | x' # rest' \<Rightarrow>
          (replacedObj shape ps x x' \<or> isIntrinsic shape x \<and> isReplacement ps x x')
          \<and> replacedElements shape ps rest rest')"
  by pat_completeness auto

termination
  by (relation "measure (\<lambda>a. case a of
        Inl (Inl (_, _, v, _)) \<Rightarrow> 2 * size v
      | Inl (Inr (_, _, v, _)) \<Rightarrow> 2 * size v + 1
      | Inr (Inl (_, _, kvs, _)) \<Rightarrow> 2 * size_list (size_prod (\<lambda>_. 0) size) kvs + 1
      | Inr (Inr (Inl (_, _, xs, _))) \<Rightarrow> 2 * size_list size xs + 1
      | Inr (Inr (Inr (_, _, xs, _))) \<Rightarrow> 2 * size_list size xs + 1)") auto

text \<open>
  A result of the extractor that started with \<open>n\<close> names drawn: the names of its pairs are
  the names drawn from then on, in the order they were drawn.
\<close>

definition drawn :: "(nat \<Rightarrow> nat) \<Rightarrow> nat \<Rightarrow> 'a \<times> pairs \<times> nat \<Rightarrow> bool" where
  "drawn rnd n r =
     (n \<le> snd (snd r) \<and> map fst (fst (snd r)) = map (randomName rnd) [n..<snd (snd r)])"

section \<open>JSON text\<close>

text \<open>
  \<^verbatim>\<open>JSON.stringify\<close> as ECMAScript defines it on these values. A string is quoted by
  \<open>quoteJSON\<close>: the double quote and the backslash get a backslash in front, backspace,
  tab, line feed, form feed and carriage return become their two-character escapes, any
  other character below \<^verbatim>\<open>0x20\<close> becomes \<^verbatim>\<open>\u00XX\<close> in lower-case hexadecimal, and
  every other character stands for itself. A character of the model is one code unit below
  256.
\<close>

definition dquote :: char where
  "dquote = CHR 0x22"

definition backslash :: char where
  "backslash = CHR 0x5C"

definition newline :: char where
  "newline = CHR 0x0A"

definition hexDigit :: "nat \<Rightarrow> char" where
  "hexDigit k = ''0123456789abcdef'' ! k"

definition escapeChar :: "char \<Rightarrow> string" where
  "escapeChar c =
     (if c = CHR 0x08 then [backslash, CHR ''b'']
      else if c = CHR 0x09 then [backslash, CHR ''t'']
      else if c = CHR 0x0A then [backslash, CHR ''n'']
      else if c = CHR 0x0C then [backslash, CHR ''f'']
      else if c = CHR 0x0D then [backslash, CHR ''r'']
      else if c = dquote then [backslash, dquote]
      else if c = backslash then [backslash, backslash]
      else if (of_char c :: nat) < 0x20
        then [backslash, CHR ''u'', CHR ''0'', CHR ''0'',
              hexDigit (of_char c div 16), hexDigit (of_char c mod 16)]
      else [c])"

definition quoteJSON :: "string \<Rightarrow> string" where
  "quoteJSON s = dquote # concat (map escapeChar s) @ [dquote]"

text \<open>The decimal digits of a natural number.\<close>

fun showNat :: "nat \<Rightarrow> string" where
  "showNat n =
     (if n < 10 then [''0123456789'' ! n] else showNat (n div 10) @ [''0123456789'' ! (n mod 10)])"

declare showNat.simps [simp del]

text \<open>
  The shortest form of \<open>s * 10 ^ e\<close>: trailing zeros of \<open>s\<close> go into the exponent, and
  zero is \<open>(0, 0)\<close>. \<open>decimal s e\<close> is the number \<open>s * 10 ^ e\<close> in that form, and a number
  is \<open>canonical\<close> when it is kept in that form.
\<close>

function trimZeros :: "int \<Rightarrow> int \<Rightarrow> int \<times> int" where
  "trimZeros s e =
     (if s = 0 then (0, 0)
      else if 10 dvd s then trimZeros (s div 10) (e + 1)
      else (s, e))"
  by pat_completeness auto

termination
  by (relation "measure (\<lambda>(s, e). nat \<bar>s\<bar>)") (auto elim!: dvdE)

declare trimZeros.simps [simp del]

definition decimal :: "int \<Rightarrow> int \<Rightarrow> number" where
  "decimal s e = (case trimZeros s e of (s', e') \<Rightarrow> Decimal s' e')"

definition canonical :: "number \<Rightarrow> bool" where
  "canonical x = (case x of Decimal s e \<Rightarrow> trimZeros s e = (s, e) | _ \<Rightarrow> True)"

definition isFinite :: "number \<Rightarrow> bool" where
  "isFinite x = (case x of Decimal s e \<Rightarrow> True | _ \<Rightarrow> False)"

text \<open>
  \<^verbatim>\<open>Number::toString\<close> of ECMAScript for a positive number with the digits \<open>ds\<close> and the
  exponent \<open>e\<close>. With \<open>k\<close> the number of digits and \<open>n = k + e\<close> the position of the decimal
  point: the digits and \<open>n - k\<close> zeros when \<open>k \<le> n \<le> 21\<close>; the digits with a point
  after the first \<open>n\<close> when \<open>0 < n \<le> 21\<close>; \<^verbatim>\<open>0.\<close>, \<open>- n\<close> zeros and the digits when
  \<open>- 6 < n \<le> 0\<close>; otherwise the first digit, a point and the other digits if there are
  any, \<^verbatim>\<open>e\<close>, the sign of \<open>n - 1\<close> and its decimal digits.
\<close>

definition digitsToString :: "string \<Rightarrow> int \<Rightarrow> string" where
  "digitsToString ds e =
     (let k = int (length ds); n = k + e in
      if k \<le> n \<and> n \<le> 21 then ds @ replicate (nat (n - k)) (CHR ''0'')
      else if 0 < n \<and> n \<le> 21 then take (nat n) ds @ ''.'' @ drop (nat n) ds
      else if - 6 < n \<and> n \<le> 0 then ''0.'' @ replicate (nat (- n)) (CHR ''0'') @ ds
      else (if k = 1 then ds else hd ds # ''.'' @ tl ds)
             @ ''e'' @ (if 0 \<le> n - 1 then ''+'' else ''-'') @ showNat (nat \<bar>n - 1\<bar>))"

text \<open>\<^verbatim>\<open>Number.prototype.toString\<close>, which is also \<^verbatim>\<open>String(x)\<close> of a number.\<close>

definition numberToString :: "number \<Rightarrow> string" where
  "numberToString x =
     (case x of
        NaN \<Rightarrow> ''NaN''
      | PositiveInfinity \<Rightarrow> ''Infinity''
      | NegativeInfinity \<Rightarrow> ''-Infinity''
      | Decimal s e \<Rightarrow>
          (case trimZeros s e of (s', e') \<Rightarrow>
             if s' = 0 then ''0''
             else if s' < 0 then CHR ''-'' # digitsToString (showNat (nat (- s'))) e'
             else digitsToString (showNat (nat s')) e'))"

text \<open>
  \<^verbatim>\<open>JSON.stringify\<close> of a number: a finite number prints as \<^verbatim>\<open>String(x)\<close>, any other
  as \<^verbatim>\<open>null\<close>.
\<close>

definition numberToJSON :: "number \<Rightarrow> string" where
  "numberToJSON x = (if isFinite x then numberToString x else ''null'')"

text \<open>\<^verbatim>\<open>Array.prototype.join\<close> on strings.\<close>

fun join :: "string \<Rightarrow> string list \<Rightarrow> string" where
  "join sep [] = []"
| "join sep [x] = x"
| "join sep (x # y # rest) = x @ sep @ join sep (y # rest)"

text \<open>
  The last step of \<^verbatim>\<open>SerializeJSONObject\<close> and \<^verbatim>\<open>SerializeJSONArray\<close>: \<open>partial\<close> holds
  the serialized members, \<open>stepback\<close> is the indentation of the enclosing level and \<open>gap\<close>
  the indentation unit (empty for \<^verbatim>\<open>JSON.stringify(v)\<close>, two spaces for
  \<^verbatim>\<open>JSON.stringify(v, undefined, 2)\<close>).
\<close>

definition wrap :: "char \<Rightarrow> char \<Rightarrow> string \<Rightarrow> string \<Rightarrow> string list \<Rightarrow> string" where
  "wrap opening closing gap stepback partial =
     (if partial = [] then [opening, closing]
      else if gap = [] then opening # join '','' partial @ [closing]
      else opening # newline # (stepback @ gap)
             @ join (CHR '','' # newline # (stepback @ gap)) partial
             @ newline # stepback @ [closing])"

primrec serialize :: "string \<Rightarrow> json \<Rightarrow> string \<Rightarrow> string"
  and serializeProps :: "string \<Rightarrow> (string \<times> json) list \<Rightarrow> string \<Rightarrow> string list"
  and serializeProp :: "string \<Rightarrow> string \<times> json \<Rightarrow> string \<Rightarrow> string"
  and serializeElements :: "string \<Rightarrow> json list \<Rightarrow> string \<Rightarrow> string list"
where
  "serialize gap JNull indent = ''null''"
| "serialize gap (JBool b) indent = (if b then ''true'' else ''false'')"
| "serialize gap (JNum x) indent = numberToJSON x"
| "serialize gap (JStr s) indent = quoteJSON s"
| "serialize gap (JArr xs) indent =
     wrap (CHR ''['') (CHR '']'') gap indent (serializeElements gap xs (indent @ gap))"
| "serialize gap (JObj kvs) indent =
     wrap (CHR ''{'') (CHR ''}'') gap indent (serializeProps gap kvs (indent @ gap))"
| "serializeProps gap [] indent = []"
| "serializeProps gap (kv # rest) indent =
     serializeProp gap kv indent # serializeProps gap rest indent"
| "serializeProp gap (key, v) indent =
     quoteJSON key @ '':'' @ (if gap = [] then [] else '' '') @ serialize gap v indent"
| "serializeElements gap [] indent = []"
| "serializeElements gap (x # rest) indent =
     serialize gap x indent # serializeElements gap rest indent"

definition JSON_stringify :: "string \<Rightarrow> json \<Rightarrow> string" where
  "JSON_stringify gap v = serialize gap v []"

text \<open>
  \<^verbatim>\<open>.replace(/\\n|\\r|\\n\\r/g, '')\<close>: from left to right, every backslash followed by
  \<^verbatim>\<open>n\<close> or by \<^verbatim>\<open>r\<close> is removed with that letter (the third alternative never gets its
  turn: the first one matches wherever it would).
\<close>

fun stripEscapes :: "string \<Rightarrow> string" where
  "stripEscapes (a # b # cs) =
     (if a = backslash \<and> (b = CHR ''n'' \<or> b = CHR ''r'') then stripEscapes cs
      else a # stripEscapes (b # cs))"
| "stripEscapes cs = cs"

section \<open>Tags\<close>

datatype error =
    ServerlessError string
  | TypeError string

text \<open>
  What \<^verbatim>\<open>String(x)\<close> gives for a value that is not null, which is also what the value
  contributes to \<^verbatim>\<open>Array.prototype.join\<close> (where null contributes nothing):
  \<^verbatim>\<open>toString\<close> of an array joins its elements with commas, of a plain object it is
  \<^verbatim>\<open>[object Object]\<close>.
\<close>

primrec joinString :: "json \<Rightarrow> string"
  and joinStrings :: "json list \<Rightarrow> string list"
where
  "joinString JNull = []"
| "joinString (JBool b) = (if b then ''true'' else ''false'')"
| "joinString (JNum x) = numberToString x"
| "joinString (JStr s) = s"
| "joinString (JArr xs) = join '','' (joinStrings xs)"
| "joinString (JObj kvs) = ''[object Object]''"
| "joinStrings [] = []"
| "joinStrings (x # rest) = joinString x # joinStrings rest"

text \<open>
  \<^verbatim>\<open>Value.toString()\<close>, where \<open>None\<close> is \<^verbatim>\<open>undefined\<close>: reading \<^verbatim>\<open>toString\<close> of null or
  undefined throws a TypeError.
\<close>

definition toString :: "json option \<Rightarrow> error + string" where
  "toString v =
     (case v of
        None \<Rightarrow> Inl (TypeError ''Value.toString'')
      | Some JNull \<Rightarrow> Inl (TypeError ''Value.toString'')
      | Some x \<Rightarrow> Inr (joinString x))"

record tag =
  Key :: json
  Value :: string

text \<open>
  \<^verbatim>\<open>_.forEach(obj, (Value, Key) => ...)\<close> of lodash visits the own properties of a plain
  object in key order, unless the object is array-like: an object whose \<^verbatim>\<open>length\<close> is a
  number that is a valid length (\<^verbatim>\<open>isLength\<close>: an integer from 0 to
  \<^verbatim>\<open>Number.MAX_SAFE_INTEGER\<close>) is iterated like an array, by the indices below
  \<^verbatim>\<open>length\<close>, whatever its other keys are. \<open>forEachEntries\<close> lists the calls of the
  callback as (Key, Value) pairs, \<open>None\<close> for an index the object has no property for.
  \<open>integerValue\<close> is the value of a number that is an integer.
\<close>

definition integerValue :: "number \<Rightarrow> int option" where
  "integerValue x =
     (case x of
        Decimal s e \<Rightarrow>
          (case trimZeros s e of (s', e') \<Rightarrow>
             if 0 \<le> e' then Some (s' * 10 ^ nat e') else None)
      | _ \<Rightarrow> None)"

definition isLength :: "json \<Rightarrow> bool" where
  "isLength v =
     (case v of
        JNum x \<Rightarrow>
          (case integerValue x of
             Some i \<Rightarrow> 0 \<le> i \<and> i \<le> 9007199254740991
           | None \<Rightarrow> False)
      | _ \<Rightarrow> False)"

definition isArrayLike :: "(string \<times> json) list \<Rightarrow> bool" where
  "isArrayLike obj = (case map_of obj ''length'' of Some v \<Rightarrow> isLength v | None \<Rightarrow> False)"

definition forEachEntries :: "(string \<times> json) list \<Rightarrow> (json \<times> json option) list" where
  "forEachEntries obj =
     (if isArrayLike obj
      then (case map_of obj ''length'' of
              Some (JNum x) \<Rightarrow>
                (case integerValue x of
                   Some len \<Rightarrow>
                     map (\<lambda>i. (JNum (decimal (int i) 0), map_of obj (showNat i))) [0..<nat len]
                 | None \<Rightarrow> [])
            | _ \<Rightarrow> [])
      else map (\<lambda>(k, v). (JStr k, Some v)) obj)"

text \<open>The callback of \<open>toTags\<close> over the calls, stopping at the first that throws.\<close>

fun pushTags :: "(json \<times> json option) list \<Rightarrow> tag list \<Rightarrow> error + tag list" where
  "pushTags [] tags = Inr tags"
| "pushTags ((k, v) # rest) tags =
     (case toString v of
        Inl e \<Rightarrow> Inl e
      | Inr str \<Rightarrow> pushTags rest (tags @ [\<lparr>Key = k, Value = str\<rparr>]))"

text \<open>
  \<open>toTags\<close>: \<open>None\<close> is an absent \<^verbatim>\<open>tags\<close> field, for which \<^verbatim>\<open>!obj\<close> holds; a mapping is
  never falsy.
\<close>

definition toTags :: "(string \<times> json) list option \<Rightarrow> error + tag list" where
  "toTags obj = (case obj of None \<Rightarrow> Inr [] | Some kvs \<Rightarrow> pushTags (forEachEntries kvs) [])"

section \<open>The compiler\<close>

text \<open>
  The fields of a state machine entry that \<^verbatim>\<open>compileStateMachines\<close> reads; \<open>None\<close> is a
  field that is not there (\<^verbatim>\<open>undefined\<close>). A \<^verbatim>\<open>tags\<close> field that is there is a mapping.
\<close>

record stateMachine =
  sm_definition :: "json option"
  sm_useExactVersion :: "json option"
  sm_role :: "json option"
  sm_dependsOn :: "json option"
  sm_tags :: "(string \<times> json) list option"
  sm_name :: "json option"

text \<open>JavaScript truthiness of a field.\<close>

definition truthy :: "json option \<Rightarrow> bool" where
  "truthy v =
     (case v of
        None \<Rightarrow> False
      | Some JNull \<Rightarrow> False
      | Some (JBool b) \<Rightarrow> b
      | Some (JNum x) \<Rightarrow>
          (case x of Decimal s e \<Rightarrow> s \<noteq> 0 | NaN \<Rightarrow> False | _ \<Rightarrow> True)
      | Some (JStr s) \<Rightarrow> s \<noteq> []
      | Some (JArr xs) \<Rightarrow> True
      | Some (JObj kvs) \<Rightarrow> True)"

text \<open>
  \<^verbatim>\<open>DefinitionString\<close> is the serialized text, or the object
  \<^verbatim>\<open>{'Fn::Sub': [definitionString, params]}\<close>. The parameter map is the list of its
  properties in insertion order.
\<close>

datatype definitionString =
    Text string
  | FnSub string "(string \<times> json) list"

record properties =
  DefinitionString :: "definitionString option"
  RoleArn :: json
  Tags :: "tag list"
  StateMachineName :: "json option"

record stateMachineTemplate =
  Type :: string
  Properties :: properties
  DependsOn :: "json list"

text \<open>The output entry; its \<^verbatim>\<open>Value\<close> is the field \<open>OutputValue\<close>.\<close>

record stateMachineOutPutObject =
  Description :: string
  OutputValue :: json

text \<open>
  What the compiler takes from its surroundings. The functions are the collaborators the
  source calls and does not define: the predicate of \<^verbatim>\<open>isIntrinsic\<close>, the random source
  of \<^verbatim>\<open>chance\<close>, \<^verbatim>\<open>Joi.validate\<close> against the schema (\<open>Some\<close> of the rendered error when
  the entry is rejected), \<^verbatim>\<open>aslValidator\<close> (validity and the errors it lists), the two
  name translations, the two logical id derivations, and \<^verbatim>\<open>_.merge\<close> of one new entry
  into the \<^verbatim>\<open>Resources\<close> and the \<^verbatim>\<open>Outputs\<close> of the compiled template \<open>'t\<close>. The
  extractor leaves the mutated definition in the entry; the logical id derivations, which
  are called after it, are given the entry as it was read: they name the resource and are
  taken not to look at the definition.
\<close>

record 't env =
  intrinsicShape :: "string list \<Rightarrow> bool"
  randomSource :: "nat \<Rightarrow> nat"
  joiValidate :: "stateMachine \<Rightarrow> string option"
  aslValidator :: "json \<Rightarrow> bool \<times> json"
  translateLocalFunctionNames :: "json \<Rightarrow> json"
  convertToFunctionVersion :: "json \<Rightarrow> json"
  getStateMachineLogicalId :: "string \<Rightarrow> stateMachine \<Rightarrow> string"
  getStateMachineOutputLogicalId :: "string \<Rightarrow> stateMachine \<Rightarrow> string"
  mergeResources :: "'t \<Rightarrow> string \<Rightarrow> stateMachineTemplate \<Rightarrow> 't"
  mergeOutputs :: "'t \<Rightarrow> string \<Rightarrow> stateMachineOutPutObject \<Rightarrow> 't"
  providerTags :: "(string \<times> json) list option"
  validate :: "json option"

text \<open>
  What a run changes: the compiled template, the number of parameter names drawn, and the
  lines written with \<^verbatim>\<open>consoleLog\<close>.
\<close>

record 't state =
  template :: 't
  names :: nat
  consoleLog :: "string list"

definition malformedMessage :: "string \<Rightarrow> string \<Rightarrow> string" where
  "malformedMessage stateMachineName err =
     ''State machine ['' @ stateMachineName @ ''] is malformed. ''
       @ ''Please check the README for more info. '' @ err"

text \<open>The two messages of the linter start with a check mark and a cross, in UTF-8.\<close>

definition validMessage :: "string \<Rightarrow> string" where
  "validMessage stateMachineName =
     [CHR 0xE2, CHR 0x9C, CHR 0x93] @ '' State machine '' @ [dquote] @ stateMachineName
       @ [dquote] @ '' definition is valid''"

definition invalidMessage :: "string \<Rightarrow> json \<Rightarrow> string" where
  "invalidMessage stateMachineName errors =
     join [newline]
       [[CHR 0xE2, CHR 0x9C, CHR 0x95] @ '' State machine '' @ [dquote] @ stateMachineName
          @ [dquote] @ '' definition is invalid:'',
        JSON_stringify [] errors]"

text \<open>Lines 84 to 95: the linter runs when \<^verbatim>\<open>stepFunctions.validate\<close> is truthy.\<close>

definition lintDefinition ::
    "'t env \<Rightarrow> string \<Rightarrow> json \<Rightarrow> 't state \<Rightarrow> 't state \<times> error option" where
  "lintDefinition env stateMachineName d st =
     (if truthy (validate env)
      then (case aslValidator env d of (isValid, errors) \<Rightarrow>
              if isValid
              then (st\<lparr>consoleLog := consoleLog st @ [validMessage stateMachineName]\<rparr>, None)
              else (st, Some (ServerlessError (invalidMessage stateMachineName errors))))
      else (st, None))"

text \<open>
  \<^verbatim>\<open>_.fromPairs\<close>: each pair is assigned in turn, a later pair of a key replacing the
  value. (JavaScript enumerates a key that is an array index before the others; the order
  of a parameter map carries no meaning.)
\<close>

definition fromPairs :: "(string \<times> json) list \<Rightarrow> (string \<times> json) list" where
  "fromPairs ps = fold (\<lambda>(k, v) obj. AList.update k v obj) ps []"

text \<open>\<^verbatim>\<open>_.mapValues\<close>: the same keys, every value passed through \<open>f\<close>.\<close>

definition mapValues :: "(json \<Rightarrow> json) \<Rightarrow> (string \<times> json) list \<Rightarrow> (string \<times> json) list" where
  "mapValues f obj = map (\<lambda>(k, v). (k, f v)) obj"

text \<open>
  Lines 96 to 115, for a truthy definition \<open>d\<close>: a string is serialized and stripped, anything
  else goes through the extractor and is serialized with an indentation of two.
\<close>

definition assembleDefinition :: "'t env \<Rightarrow> json \<Rightarrow> 't state \<Rightarrow> 't state \<times> definitionString" where
  "assembleDefinition env d st =
     (case d of
        JStr s \<Rightarrow> (st, Text (stripEscapes (JSON_stringify [] (JStr s))))
      | _ \<Rightarrow>
        (case getIntrinsicFunctions (intrinsicShape env) (randomSource env) d (names st) of
           (d', functionMappings, n') \<Rightarrow>
             (st\<lparr>names := n'\<rparr>,
              if functionMappings = [] then Text (JSON_stringify ''  '' d')
              else FnSub (JSON_stringify ''  '' d')
                     (fromPairs
                        (map (\<lambda>(k, v). (k, translateLocalFunctionNames env v))
                           functionMappings)))))"

text \<open>Lines 83 to 116: \<^verbatim>\<open>DefinitionString\<close> stays undefined when the definition is falsy.\<close>

definition compileDefinition ::
    "'t env \<Rightarrow> string \<Rightarrow> stateMachine \<Rightarrow> 't state
      \<Rightarrow> 't state \<times> (error + definitionString option)" where
  "compileDefinition env stateMachineName obj st =
     (case sm_definition obj of
        None \<Rightarrow> (st, Inr None)
      | Some d \<Rightarrow>
          if truthy (Some d)
          then (case lintDefinition env stateMachineName d st of
                  (st', Some e) \<Rightarrow> (st', Inl e)
                | (st', None) \<Rightarrow>
                    (case assembleDefinition env d st' of (st'', ds) \<Rightarrow> (st'', Inr (Some ds))))
          else (st, Inr None))"

text \<open>
  Lines 118 to 123. \<^verbatim>\<open>DefinitionString['Fn::Sub']\<close> is evaluated only when
  \<^verbatim>\<open>useExactVersion === true\<close>; it throws a TypeError on undefined, is undefined on a
  string and is the array on the object.
\<close>

definition pinVersion ::
    "'t env \<Rightarrow> stateMachine \<Rightarrow> definitionString option \<Rightarrow> error + definitionString option" where
  "pinVersion env obj ds =
     (if sm_useExactVersion obj = Some (JBool True)
      then (case ds of
              None \<Rightarrow> Inl (TypeError ''DefinitionString[Fn::Sub]'')
            | Some (Text t) \<Rightarrow> Inr (Some (Text t))
            | Some (FnSub t params) \<Rightarrow>
                Inr (Some (FnSub t (mapValues (convertToFunctionVersion env) params))))
      else Inr ds)"

text \<open>
  Lines 125 to 135: the role and the dependencies it brings, \<open>executionRole\<close> when the
  \<^verbatim>\<open>role\<close> field is falsy.
\<close>

definition executionRole :: "json \<times> json list" where
  "executionRole =
     (JObj [(''Fn::GetAtt'', JArr [JStr ''IamRoleStateMachineExecution'', JStr ''Arn''])],
      [JStr ''IamRoleStateMachineExecution''])"

definition resolveRole :: "stateMachine \<Rightarrow> json \<times> json list" where
  "resolveRole obj =
     (case sm_role obj of
        Some r \<Rightarrow> if truthy (Some r) then (r, []) else executionRole
      | None \<Rightarrow> executionRole)"

text \<open>
  Lines 137 to 145: \<^verbatim>\<open>_.concat\<close> appends the elements of an array, \<^verbatim>\<open>push\<close> a single
  value.
\<close>

definition addDependsOn :: "stateMachine \<Rightarrow> json list \<Rightarrow> json list" where
  "addDependsOn obj deps =
     (case sm_dependsOn obj of
        Some (JArr xs) \<Rightarrow> deps @ xs
      | Some d \<Rightarrow> if truthy (Some d) then deps @ [d] else deps
      | None \<Rightarrow> deps)"

text \<open>Lines 147 to 150: the tags of the entry are pushed after the provider's.\<close>

definition addTags :: "stateMachine \<Rightarrow> tag list \<Rightarrow> error + tag list" where
  "addTags obj tags =
     (case sm_tags obj of
        None \<Rightarrow> Inr tags
      | Some kvs \<Rightarrow>
          (case toTags (Some kvs) of
             Inl e \<Rightarrow> Inl e
           | Inr stateMachineTags \<Rightarrow> Inr (tags @ stateMachineTags)))"

text \<open>
  Lines 69 to 173: the resource record of one entry, or the error that ends the run. The
  provider's tags are normalized first, before the entry is validated.
\<close>

definition compileTemplate ::
    "'t env \<Rightarrow> string \<Rightarrow> stateMachine \<Rightarrow> 't state
      \<Rightarrow> 't state \<times> (error + stateMachineTemplate)" where
  "compileTemplate env stateMachineName obj st =
     (case toTags (providerTags env) of
        Inl e \<Rightarrow> (st, Inl e)
      | Inr tags \<Rightarrow>
     (case joiValidate env obj of
        Some err \<Rightarrow> (st, Inl (ServerlessError (malformedMessage stateMachineName err)))
      | None \<Rightarrow>
     (case compileDefinition env stateMachineName obj st of
        (st', Inl e) \<Rightarrow> (st', Inl e)
      | (st', Inr ds) \<Rightarrow>
     (case pinVersion env obj ds of
        Inl e \<Rightarrow> (st', Inl e)
      | Inr ds' \<Rightarrow>
     (case resolveRole obj of (roleArn, deps) \<Rightarrow>
     (case addTags obj tags of
        Inl e \<Rightarrow> (st', Inl e)
      | Inr tags' \<Rightarrow>
          (st', Inr \<lparr>Type = ''AWS::StepFunctions::StateMachine'',
                     Properties = \<lparr>DefinitionString = ds', RoleArn = roleArn, Tags = tags',
                       StateMachineName =
                         (if truthy (sm_name obj) then sm_name obj else None)\<rparr>,
                     DependsOn = addDependsOn obj deps\<rparr>)))))))"

text \<open>
  The body of the \<^verbatim>\<open>forEach\<close> callback: the record and its output are merged into the
  compiled template at the very end, so an error leaves the template as it was.
\<close>

definition compileStateMachine ::
    "'t env \<Rightarrow> string \<Rightarrow> stateMachine \<Rightarrow> 't state \<Rightarrow> 't state \<times> error option" where
  "compileStateMachine env stateMachineName obj st =
     (case compileTemplate env stateMachineName obj st of
        (st', Inl e) \<Rightarrow> (st', Some e)
      | (st', Inr stateMachineTemplate) \<Rightarrow>
          (let stateMachineLogicalId = getStateMachineLogicalId env stateMachineName obj;
               stateMachineOutputLogicalId =
                 getStateMachineOutputLogicalId env stateMachineName obj;
               resources =
                 mergeResources env (template st') stateMachineLogicalId stateMachineTemplate;
               outputs =
                 mergeOutputs env resources stateMachineOutputLogicalId
                   \<lparr>Description = ''Current StateMachine Arn'',
                    OutputValue = JObj [(''Ref'', JStr stateMachineLogicalId)]\<rparr>
           in (st'\<lparr>template := outputs\<rparr>, None)))"

text \<open>
  \<^verbatim>\<open>compileStateMachines\<close>: the entries are the state machines of the service by name, in
  the order of \<^verbatim>\<open>getAllStateMachines\<close>. The first error ends the loop and is what the call
  throws; the state is what the run has done until then.
\<close>

fun compileStateMachines ::
    "'t env \<Rightarrow> (string \<times> stateMachine) list \<Rightarrow> 't state \<Rightarrow> 't state \<times> error option" where
  "compileStateMachines env [] st = (st, None)"
| "compileStateMachines env ((stateMachineName, obj) # rest) st =
     (case compileStateMachine env stateMachineName obj st of
        (st', Some e) \<Rightarrow> (st', Some e)
      | (st', None) \<Rightarrow> compileStateMachines env rest st')"

section \<open>Reading JSON text\<close>

text \<open>
  \<^verbatim>\<open>JSON.parse\<close> on the values of the model, after the JSON grammar: white space is
  space, tab, line feed and carriage return; a string ends at the first double quote that
  no backslash precedes, has no character below \<^verbatim>\<open>0x20\<close>, and takes the escapes of the
  grammar (of \<^verbatim>\<open>\uXXXX\<close> those below 256, the characters of the model); a number is an
  optional minus sign, digits without a leading zero, an optional fraction and an optional
  exponent, and its value is the decimal number written (\<^verbatim>\<open>JSON.parse\<close> gives the double
  next to it, which is the double that decimal names whenever the text is one that
  \<^verbatim>\<open>JSON.stringify\<close> wrote); the members of an object are assigned in turn, as
  \<open>fromPairs\<close> does. The parsers return what they read and the rest of the text; \<open>fuel\<close>
  bounds the nesting and the number of members read, and the length of the text is enough
  of it.
\<close>

definition isWhitespace :: "char \<Rightarrow> bool" where
  "isWhitespace c = (c = CHR '' '' \<or> c = CHR 0x09 \<or> c = CHR 0x0A \<or> c = CHR 0x0D)"

definition skipWhitespace :: "string \<Rightarrow> string" where
  "skipWhitespace s = dropWhile isWhitespace s"

definition isDigit :: "char \<Rightarrow> bool" where
  "isDigit c = (48 \<le> (of_char c :: nat) \<and> (of_char c :: nat) \<le> 57)"

definition digitVal :: "char \<Rightarrow> nat" where
  "digitVal c = of_char c - 48"

definition readNat :: "string \<Rightarrow> nat" where
  "readNat ds = foldl (\<lambda>a c. 10 * a + digitVal c) 0 ds"

definition hexVal :: "char \<Rightarrow> nat option" where
  "hexVal c =
     (if isDigit c then Some (digitVal c)
      else if 97 \<le> (of_char c :: nat) \<and> (of_char c :: nat) \<le> 102 then Some (of_char c - 87)
      else if 65 \<le> (of_char c :: nat) \<and> (of_char c :: nat) \<le> 70 then Some (of_char c - 55)
      else None)"

definition unescape :: "char \<Rightarrow> char option" where
  "unescape e =
     (if e = dquote then Some dquote
      else if e = backslash then Some backslash
      else if e = CHR ''/'' then Some (CHR ''/'')
      else if e = CHR ''b'' then Some (CHR 0x08)
      else if e = CHR ''f'' then Some (CHR 0x0C)
      else if e = CHR ''n'' then Some (CHR 0x0A)
      else if e = CHR ''r'' then Some (CHR 0x0D)
      else if e = CHR ''t'' then Some (CHR 0x09)
      else None)"

definition unicodeEscape :: "char \<Rightarrow> char \<Rightarrow> char \<Rightarrow> char \<Rightarrow> char option" where
  "unicodeEscape a b c d =
     (case (hexVal a, hexVal b, hexVal c, hexVal d) of
        (Some h3, Some h2, Some h1, Some h0) \<Rightarrow>
          if h3 = 0 \<and> h2 = 0 then Some (char_of (16 * h1 + h0)) else None
      | _ \<Rightarrow> None)"

fun parseChars :: "string \<Rightarrow> (string \<times> string) option" where
  "parseChars [] = None"
| "parseChars (c # cs) =
     (if c = dquote then Some ([], cs)
      else if c = backslash then
        (case cs of
           [] \<Rightarrow> None
         | e # r \<Rightarrow>
             if e = CHR ''u'' then
               (case r of
                  h3 # h2 # h1 # h0 # r' \<Rightarrow>
                    (case unicodeEscape h3 h2 h1 h0 of
                       None \<Rightarrow> None
                     | Some ch \<Rightarrow> map_option (\<lambda>(s, t). (ch # s, t)) (parseChars r'))
                | _ \<Rightarrow> None)
             else
               (case unescape e of
                  None \<Rightarrow> None
                | Some ch \<Rightarrow> map_option (\<lambda>(s, t). (ch # s, t)) (parseChars r)))
      else if (of_char c :: nat) < 0x20 then None
      else map_option (\<lambda>(s, t). (c # s, t)) (parseChars cs))"

text \<open>The digits of a fraction after the point, none when there is no point.\<close>

definition parseFraction :: "string \<Rightarrow> (string \<times> string) option" where
  "parseFraction s =
     (case s of
        [] \<Rightarrow> Some ([], [])
      | c # t \<Rightarrow>
          if c = CHR ''.'' then
            (if takeWhile isDigit t = [] then None
             else Some (takeWhile isDigit t, dropWhile isDigit t))
          else Some ([], s))"

text \<open>The exponent after \<^verbatim>\<open>e\<close> or \<^verbatim>\<open>E\<close>, zero when there is none.\<close>

definition parseExponent :: "string \<Rightarrow> (int \<times> string) option" where
  "parseExponent s =
     (case s of
        [] \<Rightarrow> Some (0, [])
      | c # t \<Rightarrow>
          if c = CHR ''e'' \<or> c = CHR ''E'' then
            (case t of
               [] \<Rightarrow> None
             | g # u \<Rightarrow>
                 if g = CHR ''-'' then
                   (if takeWhile isDigit u = [] then None
                    else Some (- int (readNat (takeWhile isDigit u)), dropWhile isDigit u))
                 else if g = CHR ''+'' then
                   (if takeWhile isDigit u = [] then None
                    else Some (int (readNat (takeWhile isDigit u)), dropWhile isDigit u))
                 else
                   (if takeWhile isDigit t = [] then None
                    else Some (int (readNat (takeWhile isDigit t)), dropWhile isDigit t)))
          else Some (0, s))"

text \<open>
  A number without its sign: the digits \<open>ip\<close> before the point, the digits \<open>fp\<close> after it
  and the exponent \<open>x\<close> give the digits \<open>ip @ fp\<close> with the exponent \<open>x - length fp\<close>.
\<close>

definition parseUnsigned :: "string \<Rightarrow> ((int \<times> int) \<times> string) option" where
  "parseUnsigned s =
     (let ip = takeWhile isDigit s in
      if ip = [] then None
      else if hd ip = CHR ''0'' \<and> 1 < length ip then None
      else
        (case parseFraction (dropWhile isDigit s) of
           None \<Rightarrow> None
         | Some (fp, r) \<Rightarrow>
             (case parseExponent r of
                None \<Rightarrow> None
              | Some (x, r') \<Rightarrow> Some ((int (readNat (ip @ fp)), x - int (length fp)), r'))))"

definition parseNumber :: "string \<Rightarrow> (json \<times> string) option" where
  "parseNumber s =
     (case s of
        [] \<Rightarrow> None
      | c # cs \<Rightarrow>
          if c = CHR ''-''
          then map_option (\<lambda>((m, e), r). (JNum (decimal (- m) e), r)) (parseUnsigned cs)
          else map_option (\<lambda>((m, e), r). (JNum (decimal m e), r)) (parseUnsigned s))"

definition parseLiteral :: "string \<Rightarrow> (json \<times> string) option" where
  "parseLiteral s =
     (if take 4 s = ''null'' then Some (JNull, drop 4 s)
      else if take 4 s = ''true'' then Some (JBool True, drop 4 s)
      else if take 5 s = ''false'' then Some (JBool False, drop 5 s)
      else None)"

fun parseValue :: "nat \<Rightarrow> string \<Rightarrow> (json \<times> string) option"
  and parseElements :: "nat \<Rightarrow> string \<Rightarrow> (json list \<times> string) option"
  and parseMembers :: "nat \<Rightarrow> string \<Rightarrow> ((string \<times> json) list \<times> string) option"
where
  "parseValue 0 s = None"
| "parseValue (Suc fuel) [] = None"
| "parseValue (Suc fuel) (c # cs) =
     (if c = CHR ''{'' then
        (case skipWhitespace cs of
           [] \<Rightarrow> None
         | d # r \<Rightarrow>
             if d = CHR ''}'' then Some (JObj [], r)
             else map_option (\<lambda>(kvs, t). (JObj (fromPairs kvs), t)) (parseMembers fuel (d # r)))
      else if c = CHR ''['' then
        (case skipWhitespace cs of
           [] \<Rightarrow> None
         | d # r \<Rightarrow>
             if d = CHR '']'' then Some (JArr [], r)
             else map_option (\<lambda>(xs, t). (JArr xs, t)) (parseElements fuel (d # r)))
      else if c = dquote then map_option (\<lambda>(s, t). (JStr s, t)) (parseChars cs)
      else if c = CHR ''-'' \<or> isDigit c then parseNumber (c # cs)
      else parseLiteral (c # cs))"
| "parseElements 0 s = None"
| "parseElements (Suc fuel) s =
     (case parseValue fuel (skipWhitespace s) of
        None \<Rightarrow> None
      | Some (x, r) \<Rightarrow>
          (case skipWhitespace r of
             [] \<Rightarrow> None
           | d # t \<Rightarrow>
               if d = CHR '','' then map_option (\<lambda>(xs, u). (x # xs, u)) (parseElements fuel t)
               else if d = CHR '']'' then Some ([x], t)
               else None))"
| "parseMembers 0 s = None"
| "parseMembers (Suc fuel) s =
     (case skipWhitespace s of
        [] \<Rightarrow> None
      | q # r \<Rightarrow>
          if q \<noteq> dquote then None
          else
            (case parseChars r of
               None \<Rightarrow> None
             | Some (key, r1) \<Rightarrow>
                 (case skipWhitespace r1 of
                    [] \<Rightarrow> None
                  | colon # r2 \<Rightarrow>
                      if colon \<noteq> CHR '':'' then None
                      else
                        (case parseValue fuel (skipWhitespace r2) of
                           None \<Rightarrow> None
                         | Some (v, r3) \<Rightarrow>
                             (case skipWhitespace r3 of
                                [] \<Rightarrow> None
                              | d # t \<Rightarrow>
                                  if d = CHR '','' then
                                    map_option (\<lambda>(kvs, u). ((key, v) # kvs, u))
                                      (parseMembers fuel t)
                                  else if d = CHR ''}'' then Some ([(key, v)], t)
                                  else None)))))"

definition JSON_parse :: "string \<Rightarrow> json option" where
  "JSON_parse s =
     (case parseValue (length s) (skipWhitespace s) of
        None \<Rightarrow> None
      | Some (v, r) \<Rightarrow> if skipWhitespace r = [] then Some v else None)"


text \<open>
  The values a JavaScript program holds: every object reachable from the value has every
  key once, and every number is kept in its shortest form.
\<close>

primrec wellFormed :: "json \<Rightarrow> bool"
  and wellFormedProps :: "(string \<times> json) list \<Rightarrow> bool"
  and wellFormedProp :: "string \<times> json \<Rightarrow> bool"
  and wellFormedList :: "json list \<Rightarrow> bool"
where
  "wellFormed (JObj kvs) = (distinct (map fst kvs) \<and> wellFormedProps kvs)"
| "wellFormed (JArr xs) = wellFormedList xs"
| "wellFormed (JStr s) = True"
| "wellFormed (JNum x) = canonical x"
| "wellFormed (JBool b) = True"
| "wellFormed JNull = True"
| "wellFormedProps [] = True"
| "wellFormedProps (kv # rest) = (wellFormedProp kv \<and> wellFormedProps rest)"
| "wellFormedProp (key, v) = wellFormed v"
| "wellFormedList [] = True"
| "wellFormedList (x # rest) = (wellFormed x \<and> wellFormedList rest)"

text \<open>No number reachable from the value is \<^verbatim>\<open>NaN\<close> or infinite.\<close>

primrec finiteNumbers :: "json \<Rightarrow> bool"
  and finiteNumbersProps :: "(string \<times> json) list \<Rightarrow> bool"
  and finiteNumbersProp :: "string \<times> json \<Rightarrow> bool"
  and finiteNumbersList :: "json list \<Rightarrow> bool"
where
  "finiteNumbers (JObj kvs) = finiteNumbersProps kvs"
| "finiteNumbers (JArr xs) = finiteNumbersList xs"
| "finiteNumbers (JStr s) = True"
| "finiteNumbers (JNum x) = isFinite x"
| "finiteNumbers (JBool b) = True"
| "finiteNumbers JNull = True"
| "finiteNumbersProps [] = True"
| "finiteNumbersProps (kv # rest) = (finiteNumbersProp kv \<and> finiteNumbersProps rest)"
| "finiteNumbersProp (key, v) = finiteNumbers v"
| "finiteNumbersList [] = True"
| "finiteNumbersList (x # rest) = (finiteNumbers x \<and> finiteNumbersList rest)"

section \<open>Markers in a text\<close>

text \<open>
  The \<^verbatim>\<open>${name}\<close> markers of a text, from left to right: a marker starts at a dollar
  sign followed by an opening brace and its name runs up to the next closing brace. The
  first argument is the name read so far when the scan is inside a marker.
\<close>

fun markersFrom :: "string option \<Rightarrow> string \<Rightarrow> string list" where
  "markersFrom None (a # b # cs) =
     (if a = CHR ''$'' \<and> b = CHR ''{'' then markersFrom (Some []) cs
      else markersFrom None (b # cs))"
| "markersFrom None cs = []"
| "markersFrom (Some nm) (c # cs) =
     (if c = CHR ''}'' then nm # markersFrom None cs else markersFrom (Some (nm @ [c])) cs)"
| "markersFrom (Some nm) [] = []"

definition markers :: "string \<Rightarrow> string list" where
  "markers text = markersFrom None text"

text \<open>A string without a dollar sign followed by an opening brace.\<close>

fun noMarker :: "string \<Rightarrow> bool" where
  "noMarker (a # b # cs) = (\<not> (a = CHR ''$'' \<and> b = CHR ''{'') \<and> noMarker (b # cs))"
| "noMarker cs = True"

text \<open>No string and no key of the document has the start of a marker.\<close>

primrec markerFree :: "json \<Rightarrow> bool"
  and markerFreeProps :: "(string \<times> json) list \<Rightarrow> bool"
  and markerFreeProp :: "string \<times> json \<Rightarrow> bool"
  and markerFreeList :: "json list \<Rightarrow> bool"
where
  "markerFree (JObj kvs) = markerFreeProps kvs"
| "markerFree (JArr xs) = markerFreeList xs"
| "markerFree (JStr s) = noMarker s"
| "markerFree (JNum x) = True"
| "markerFree (JBool b) = True"
| "markerFree JNull = True"
| "markerFreeProps [] = True"
| "markerFreeProps (kv # rest) = (markerFreeProp kv \<and> markerFreeProps rest)"
| "markerFreeProp (key, v) = (noMarker key \<and> markerFree v)"
| "markerFreeList [] = True"
| "markerFreeList (x # rest) = (markerFree x \<and> markerFreeList rest)"

text \<open>A piece of text that has the markers \<open>found\<close>, whatever text follows it.\<close>

definition scansTo :: "string \<Rightarrow> string list \<Rightarrow> bool" where
  "scansTo piece found = (\<forall>rest. markersFrom None (piece @ rest) = found @ markersFrom None rest)"

section \<open>Concrete inputs\<close>

text \<open>
  Collaborators for the concrete runs below: every entry passes the schema, the linter
  accepts the definitions that are mappings, the two translations wrap the reference they
  are given, and the compiled template is the list of the resources and the list of the
  outputs merged so far.
\<close>

type_synonym compiledTemplate =
  "(string \<times> stateMachineTemplate) list \<times> (string \<times> stateMachineOutPutObject) list"

definition exampleEnv :: "compiledTemplate env" where
  "exampleEnv =
     \<lparr>intrinsicShape = cfnShape,
      randomSource = (\<lambda>i. i),
      joiValidate = (\<lambda>obj. None),
      aslValidator = (\<lambda>d. case d of JObj kvs \<Rightarrow> (True, JArr []) | _ \<Rightarrow> (False, JArr [JStr ''bad''])),
      translateLocalFunctionNames = (\<lambda>v. JObj [(''translated'', v)]),
      convertToFunctionVersion = (\<lambda>v. JObj [(''version'', v)]),
      getStateMachineLogicalId = (\<lambda>stateMachineName obj. stateMachineName @ ''StepFunctionsStateMachine''),
      getStateMachineOutputLogicalId = (\<lambda>stateMachineName obj. stateMachineName @ ''StepFunctionsStateMachineArn''),
      mergeResources = (\<lambda>t k r. (fst t @ [(k, r)], snd t)),
      mergeOutputs = (\<lambda>t k out. (fst t, snd t @ [(k, out)])),
      providerTags = Some [(''a'', JNum (Decimal 1 0))],
      validate = None\<rparr>"

definition emptyState :: "compiledTemplate state" where
  "emptyState = \<lparr>template = ([], []), names = 0, consoleLog = []\<rparr>"

definition emptyStateMachine :: stateMachine where
  "emptyStateMachine =
     \<lparr>sm_definition = None, sm_useExactVersion = None, sm_role = None, sm_dependsOn = None,
      sm_tags = None, sm_name = None\<rparr>"

text \<open>The entries the concrete runs compile.\<close>

definition stringMachine :: stateMachine where
  "stringMachine = emptyStateMachine\<lparr>sm_definition := Some (JStr (''definition1'' @ [newline]))\<rparr>"

definition taskDefinition :: json where
  "taskDefinition =
     JObj [(''StartAt'', JStr ''X''),
           (''States'', JObj [(''X'', JObj [(''Type'', JStr ''Task''),
              (''Resource'', JObj [(''Fn::GetAtt'', JArr [JStr ''Fn1'', JStr ''Arn''])]),
              (''End'', JBool True)])])]"

definition taskText :: string where
  "taskText =
     JSON_stringify ''  ''
       (JObj [(''StartAt'', JStr ''X''),
              (''States'', JObj [(''X'', JObj [(''Type'', JStr ''Task''),
                 (''Resource'', JStr ''${abcdefghij}''),
                 (''End'', JBool True)])])])"

definition taskParams :: "(string \<times> json) list" where
  "taskParams =
     [(''abcdefghij'',
       JObj [(''translated'', JObj [(''Fn::GetAtt'', JArr [JStr ''Fn1'', JStr ''Arn''])])])]"

definition taskMachine :: "json option \<Rightarrow> stateMachine" where
  "taskMachine flag =
     emptyStateMachine\<lparr>sm_definition := Some taskDefinition, sm_useExactVersion := flag\<rparr>"

definition taskTemplate :: "definitionString \<Rightarrow> stateMachineTemplate" where
  "taskTemplate ds =
     \<lparr>Type = ''AWS::StepFunctions::StateMachine'',
      Properties = \<lparr>DefinitionString = Some ds,
         RoleArn = JObj [(''Fn::GetAtt'', JArr [JStr ''IamRoleStateMachineExecution'', JStr ''Arn''])],
         Tags = [\<lparr>Key = JStr ''a'', Value = ''1''\<rparr>],
         StateMachineName = None\<rparr>,
      DependsOn = [JStr ''IamRoleStateMachineExecution'']\<rparr>"

definition roleMachine :: stateMachine where
  "roleMachine =
     emptyStateMachine\<lparr>sm_role := Some (JStr ''arn:aws:iam::1:role/run''),
       sm_dependsOn := Some (JArr [JStr ''B'', JStr ''A'', JStr ''B'']),
       sm_tags := Some [(''b'', JNum (Decimal 2 0))]\<rparr>"


definition plainMachine :: stateMachine where
  "plainMachine = emptyStateMachine\<lparr>sm_dependsOn := Some (JStr ''Queue'')\<rparr>"

definition rejectingEnv :: "compiledTemplate env" where
  "rejectingEnv =
     exampleEnv\<lparr>joiValidate := (\<lambda>obj. Some ''ValidationError: child definition fails'')\<rparr>"

definition lintingEnv :: "compiledTemplate env" where
  "lintingEnv = exampleEnv\<lparr>validate := Some (JBool True)\<rparr>"

definition brokenMachine :: stateMachine where
  "brokenMachine = emptyStateMachine\<lparr>sm_definition := Some (JArr [])\<rparr>"

definition regionDefinition :: json where
  "regionDefinition =
     JObj [(''Comment'', JStr ''${AWS::Region}''), (''Topic'', JObj [(''Ref'', JStr ''T'')])]"




section \<open>Properties of the extractor\<close>

lemma visitProps_keys:
  "visitProps shape rnd kvs n = (kvs', ps, n') \<Longrightarrow> map fst kvs' = map fst kvs"
  by (induction kvs arbitrary: n kvs' ps n') (auto split: prod.splits)

lemma extractor_clean:
  "cleanObj shape (fst (getIntrinsicFunctions shape rnd v n))"
  "\<not> isIntrinsic shape (fst (visitValue shape rnd v n))
    \<and> cleanObj shape (fst (visitValue shape rnd v n))"
  "cleanProps shape (fst (visitProps shape rnd kvs n))"
  "list_all (\<lambda>x. \<not> isIntrinsic shape x) (fst (visitItems shape rnd xs n))
    \<and> cleanList shape (fst (visitItems shape rnd xs n))"
  "cleanList shape (fst (visitElements shape rnd ys n))"
  by (induction shape rnd v n and shape rnd v n and shape rnd kvs n and shape rnd xs n
        and shape rnd ys n
      rule: getIntrinsicFunctions_visitValue_visitProps_visitItems_visitElements.induct)
     (auto split: prod.splits simp: isIntrinsic_def dest: visitProps_keys)

lemma isReplacement_mono:
  "isReplacement ps v v' \<Longrightarrow> set ps \<subseteq> set qs \<Longrightarrow> isReplacement qs v v'"
  by (auto simp: isReplacement_def list_ex_iff)

lemma replaced_mono:
  "replacedObj shape ps v v' \<Longrightarrow> set ps \<subseteq> set qs \<Longrightarrow> replacedObj shape qs v v'"
  "replacedValue shape ps w w' \<Longrightarrow> set ps \<subseteq> set qs \<Longrightarrow> replacedValue shape qs w w'"
  "replacedProps shape ps kvs kvs' \<Longrightarrow> set ps \<subseteq> set qs \<Longrightarrow> replacedProps shape qs kvs kvs'"
  "replacedItems shape ps xs xs' \<Longrightarrow> set ps \<subseteq> set qs \<Longrightarrow> replacedItems shape qs xs xs'"
  "replacedElements shape ps ys ys' \<Longrightarrow> set ps \<subseteq> set qs \<Longrightarrow> replacedElements shape qs ys ys'"
proof (induction shape ps v v' and shape ps w w' and shape ps kvs kvs' and shape ps xs xs'
    and shape ps ys ys' rule: replacedObj_replacedValue_replacedProps_replacedItems_replacedElements.induct)
qed (auto split: json.splits list.splits prod.splits if_splits intro: isReplacement_mono)

lemma replaced_append:
  "replacedValue shape ps w w' \<Longrightarrow> replacedValue shape (ps @ qs) w w'"
  "replacedObj shape ps v v' \<Longrightarrow> replacedObj shape (ps @ qs) v v'"
  "replacedProps shape qs kvs kvs' \<Longrightarrow> replacedProps shape (ps @ qs) kvs kvs'"
  "replacedItems shape qs xs xs' \<Longrightarrow> replacedItems shape (ps @ qs) xs xs'"
  "replacedElements shape qs ys ys' \<Longrightarrow> replacedElements shape (ps @ qs) ys ys'"
  by (erule replaced_mono, simp)+

lemma extractor_replaced:
  "getIntrinsicFunctions shape rnd v n = (v', ps, n') \<Longrightarrow> replacedObj shape ps v v'"
  "visitValue shape rnd w m = (w', qs, m') \<Longrightarrow> replacedValue shape qs w w'"
  "visitProps shape rnd kvs k = (kvs', rs, k') \<Longrightarrow> replacedProps shape rs kvs kvs'"
  "visitItems shape rnd xs i = (xs', ss, i') \<Longrightarrow> replacedItems shape ss xs xs'"
  "visitElements shape rnd ys j = (ys', ts, j') \<Longrightarrow> replacedElements shape ts ys ys'"
proof (induction shape rnd v n and shape rnd w m and shape rnd kvs k and shape rnd xs i
    and shape rnd ys j arbitrary: v' ps n' and w' qs m' and kvs' rs k' and xs' ss i'
    and ys' ts j'
    rule: getIntrinsicFunctions_visitValue_visitProps_visitItems_visitElements.induct)
qed (auto split: prod.splits if_splits simp: isReplacement_def replaced_append)

lemma upt_names:
  "n \<le> m \<Longrightarrow> m \<le> k \<Longrightarrow> map f [n..<m] @ map f [m..<k] = map f [n..<k]"
  by (metis le_Suc_ex map_append upt_add_eq_append)

lemma extractor_drawn:
  "drawn rnd n (getIntrinsicFunctions shape rnd v n)"
  "drawn rnd m (visitValue shape rnd w m)"
  "drawn rnd k (visitProps shape rnd kvs k)"
  "drawn rnd i (visitItems shape rnd xs i)"
  "drawn rnd j (visitElements shape rnd ys j)"
proof (induction shape rnd v n and shape rnd w m and shape rnd kvs k and shape rnd xs i
    and shape rnd ys j
    rule: getIntrinsicFunctions_visitValue_visitProps_visitItems_visitElements.induct)
  case (14 shape rnd key v rest n)
  obtain v' ps n' where a: "visitValue shape rnd v n = (v', ps, n')"
    by (cases "visitValue shape rnd v n") auto
  obtain rest' qs n'' where b: "visitProps shape rnd rest n' = (rest', qs, n'')"
    by (cases "visitProps shape rnd rest n'") auto
  from 14(1) a have "n \<le> n'" "map fst ps = map (randomName rnd) [n..<n']"
    by (simp_all add: drawn_def)
  moreover from 14(2) [OF a [symmetric] refl] b
  have "n' \<le> n''" "map fst qs = map (randomName rnd) [n'..<n'']"
    by (simp_all add: drawn_def)
  ultimately show ?case using a b
    by (simp add: drawn_def upt_names)
next
  case (16 shape rnd v rest n)
  obtain v' ps n' where a: "visitValue shape rnd v n = (v', ps, n')"
    by (cases "visitValue shape rnd v n") auto
  obtain rest' qs n'' where b: "visitItems shape rnd rest n' = (rest', qs, n'')"
    by (cases "visitItems shape rnd rest n'") auto
  from 16(1) a have "n \<le> n'" "map fst ps = map (randomName rnd) [n..<n']"
    by (simp_all add: drawn_def)
  moreover from 16(2) [OF a [symmetric] refl] b
  have "n' \<le> n''" "map fst qs = map (randomName rnd) [n'..<n'']"
    by (simp_all add: drawn_def)
  ultimately show ?case using a b
    by (simp add: drawn_def upt_names)
next
  case (18 shape rnd x rest n)
  obtain x' ps n' where a: "getIntrinsicFunctions shape rnd x n = (x', ps, n')"
    by (cases "getIntrinsicFunctions shape rnd x n") auto
  obtain rest' qs n'' where b: "visitElements shape rnd rest n' = (rest', qs, n'')"
    by (cases "visitElements shape rnd rest n'") auto
  from 18(1) a have "n \<le> n'" "map fst ps = map (randomName rnd) [n..<n']"
    by (simp_all add: drawn_def)
  moreover from 18(2) [OF a [symmetric] refl] b
  have "n' \<le> n''" "map fst qs = map (randomName rnd) [n'..<n'']"
    by (simp_all add: drawn_def)
  ultimately show ?case using a b
    by (simp add: drawn_def upt_names)
qed (auto split: prod.splits simp: drawn_def upt_conv_Cons)

text \<open>
  C1 (as amended). For every definition document passed to the extractor, after extraction
  no value of a key of any mapping reachable in the mutated tree matches the intrinsic
  reference predicate: the mutated tree is the document with every intrinsic reference that
  the traversal meets as the value of a key replaced by the marker string of a freshly drawn
  name, which is yielded with that reference, and with everything else as it was. The
  names of the pairs are the names drawn, in order. The root itself is never replaced: it
  matches the predicate afterwards exactly when it did before. Nothing is promised for a
  reference that is a direct element of an array.
\<close>

theorem C1_no_intrinsic_object_values:
  assumes "getIntrinsicFunctions shape rnd doc n = (doc', ps, n')"
  shows "cleanObj shape doc'
    \<and> replacedObj shape ps doc doc'
    \<and> map fst ps = map (randomName rnd) [n..<n']
    \<and> isIntrinsic shape doc' = isIntrinsic shape doc"
proof -
  from extractor_clean(1) [of shape rnd doc n] assms have "cleanObj shape doc'"
    by simp
  moreover from assms have "replacedObj shape ps doc doc'"
    by (rule extractor_replaced(1))
  moreover from extractor_drawn(1) [of rnd n shape doc] assms
  have "map fst ps = map (randomName rnd) [n..<n']"
    by (simp add: drawn_def)
  moreover from assms have "isIntrinsic shape doc' = isIntrinsic shape doc"
    by (cases doc) (auto simp: isIntrinsic_def split: prod.splits dest: visitProps_keys)
  ultimately show ?thesis
    by simp
qed

text \<open>
  The task definition: the reference under \<^verbatim>\<open>Resource\<close> is exchanged for the marker of
  the first name, and the pair of that name and the reference is yielded.
\<close>

theorem C1_witness:
  "getIntrinsicFunctions cfnShape (\<lambda>i. i) taskDefinition 0 =
     (JObj [(''StartAt'', JStr ''X''),
            (''States'', JObj [(''X'', JObj [(''Type'', JStr ''Task''),
               (''Resource'', JStr ''${abcdefghij}''),
               (''End'', JBool True)])])],
      [(''abcdefghij'', JObj [(''Fn::GetAtt'', JArr [JStr ''Fn1'', JStr ''Arn''])])], 1)
   \<and> cleanObj cfnShape
        (JObj [(''StartAt'', JStr ''X''),
               (''States'', JObj [(''X'', JObj [(''Type'', JStr ''Task''),
                  (''Resource'', JStr ''${abcdefghij}''),
                  (''End'', JBool True)])])])
   \<and> replacedObj cfnShape
        [(''abcdefghij'', JObj [(''Fn::GetAtt'', JArr [JStr ''Fn1'', JStr ''Arn''])])]
        taskDefinition
        (JObj [(''StartAt'', JStr ''X''),
               (''States'', JObj [(''X'', JObj [(''Type'', JStr ''Task''),
                  (''Resource'', JStr ''${abcdefghij}''),
                  (''End'', JBool True)])])])
   \<and> map fst [(''abcdefghij'', JObj [(''Fn::GetAtt'', JArr [JStr ''Fn1'', JStr ''Arn''])])]
       = map (randomName (\<lambda>i. i)) [0..<1]
   \<and> isIntrinsic cfnShape
        (JObj [(''StartAt'', JStr ''X''),
               (''States'', JObj [(''X'', JObj [(''Type'', JStr ''Task''),
                  (''Resource'', JStr ''${abcdefghij}''),
                  (''End'', JBool True)])])])
       = isIntrinsic cfnShape taskDefinition"
proof -
  have a: "getIntrinsicFunctions cfnShape (\<lambda>i. i) taskDefinition 0 =
     (JObj [(''StartAt'', JStr ''X''),
            (''States'', JObj [(''X'', JObj [(''Type'', JStr ''Task''),
               (''Resource'', JStr ''${abcdefghij}''),
               (''End'', JBool True)])])],
      [(''abcdefghij'', JObj [(''Fn::GetAtt'', JArr [JStr ''Fn1'', JStr ''Arn''])])], 1)"
    by code_simp
  from a C1_no_intrinsic_object_values [OF a] show ?thesis
    by (rule conjI)
qed

text \<open>
  C1 as stated fails at the root and at an array element: a definition that is itself an
  intrinsic reference keeps matching the predicate after extraction, and so does the
  reference inside the array under \<^verbatim>\<open>Branches\<close>.
\<close>

theorem C1_counterexample:
  "hasIntrinsic cfnShape
     (fst (getIntrinsicFunctions cfnShape (\<lambda>i. i) (JObj [(''Ref'', JStr ''X'')]) 0))
   \<and> hasIntrinsic cfnShape
     (fst (getIntrinsicFunctions cfnShape (\<lambda>i. i)
        (JObj [(''Branches'', JArr [JObj [(''Fn::GetAtt'', JArr [JStr ''F'', JStr ''Arn''])]])])
        0))"
  by (simp add: cfnShape_def isIntrinsic_def)

section \<open>Serialized text reads back\<close>







lemma decimal_digits:
  assumes "k < 10"
  shows "isDigit (''0123456789'' ! k)" and "digitVal (''0123456789'' ! k) = k"
    and "''0123456789'' ! k = CHR ''0'' \<longleftrightarrow> k = 0"
proof -
  have "list_all (\<lambda>k. isDigit (''0123456789'' ! k) \<and> digitVal (''0123456789'' ! k) = k
      \<and> (''0123456789'' ! k = CHR ''0'' \<longleftrightarrow> k = 0)) [0..<10]"
    by code_simp
  with assms show "isDigit (''0123456789'' ! k)" and "digitVal (''0123456789'' ! k) = k"
    and "''0123456789'' ! k = CHR ''0'' \<longleftrightarrow> k = 0"
    by (simp_all add: list_all_iff)
qed

lemma showNat_digits:
  "list_all isDigit (showNat n) \<and> showNat n \<noteq> []"
proof (induction n rule: showNat.induct)
  case (1 n)
  show ?case
  proof (cases "n < 10")
    case True
    then show ?thesis
      by (subst (1 2) showNat.simps) (simp add: decimal_digits(1))
  next
    case False
    with 1 show ?thesis
      by (subst (1 2) showNat.simps) (simp add: decimal_digits(1))
  qed
qed


















lemma digitsToString_chars:
  assumes "list_all isDigit ds" and "ds \<noteq> []"
  shows "list_all (\<lambda>c. isDigit c \<or> c \<in> set ''.e+-'') (digitsToString ds e)"
proof -
  have z: "isDigit (CHR ''0'')"
    by (simp add: isDigit_def)
  from assms have h: "isDigit (hd ds)" and t: "list_all isDigit (tl ds)"
    by (cases ds; simp)+
  from assms(1) have p: "list_all isDigit (take j ds)" "list_all isDigit (drop j ds)" for j
    by (auto simp: list_all_iff dest: in_set_takeD in_set_dropD)
  have w: "list_all isDigit xs \<Longrightarrow> list_all (\<lambda>c. isDigit c \<or> c \<in> set ''.e+-'') xs" for xs
    by (simp add: list_all_iff)
  have r: "list_all isDigit (replicate j (CHR ''0''))" for j
    using z by (simp add: list_all_iff)
  have s: "list_all isDigit (showNat j)" for j
    using showNat_digits by simp
  show ?thesis
    unfolding digitsToString_def Let_def
    using w [OF assms(1)] w [OF t] w [OF p(1)] w [OF p(2)] w [OF r] w [OF s] h z
    by simp
qed

lemma numberToString_chars:
  "list_all (\<lambda>c. isDigit c \<or> c \<in> set ''.e+-'') (numberToString (Decimal s e))"
proof -
  obtain s' e' where t: "trimZeros s e = (s', e')"
    by (cases "trimZeros s e") auto
  have d: "list_all isDigit (showNat j)" "showNat j \<noteq> []" for j
    using showNat_digits by simp_all
  have z: "isDigit (CHR ''0'')"
    by (simp add: isDigit_def)
  show ?thesis
    using digitsToString_chars [OF d] z by (simp add: numberToString_def t)
qed

lemma numberToJSON_plain:
  "CHR ''$'' \<notin> set (numberToJSON x)"
proof (cases x)
  case (Decimal s e)
  have "\<not> isDigit (CHR ''$'')"
    by (simp add: isDigit_def)
  with numberToString_chars [of s e] show ?thesis
    by (auto simp: numberToJSON_def isFinite_def Decimal list_all_iff)
qed (simp_all add: numberToJSON_def isFinite_def)




text \<open>Some numbers as JavaScript prints them, and some number texts as they are read.\<close>

lemma numberToString_examples:
  "map numberToString
     [Decimal 1 0, Decimal 15 (- 1), Decimal 1 21, Decimal 1 20, Decimal (- 25) (- 8),
      Decimal 123 (- 8), Decimal 123 (- 9), Decimal 12 21, Decimal 5 (- 324),
      Decimal 0 0, NaN, NegativeInfinity]
   = [''1'', ''1.5'', ''1e+21'', ''100000000000000000000'', ''-2.5e-7'',
      ''0.00000123'', ''1.23e-7'', ''1.2e+22'', ''5e-324'',
      ''0'', ''NaN'', ''-Infinity'']"
  by code_simp

lemma JSON_parse_examples:
  "map JSON_parse [''1.5'', ''1e+21'', ''-2.5E-7'', ''10'', ''0.50'', ''01'', ''1.'', ''.5'']
   = [Some (JNum (Decimal 15 (- 1))), Some (JNum (Decimal 1 21)),
      Some (JNum (Decimal (- 25) (- 8))), Some (JNum (Decimal 1 1)),
      Some (JNum (Decimal 5 (- 1))), None, None, None]"
  by code_simp




























section \<open>The markers of a serialized definition\<close>

lemma scansTo_Nil_iff:
  "scansTo [] found \<longleftrightarrow> found = []"
  by (auto simp: scansTo_def dest: spec [of _ "[]"])

lemma scansTo_append:
  "scansTo p ms \<Longrightarrow> scansTo q ns \<Longrightarrow> scansTo (p @ q) (ms @ ns)"
  by (simp add: scansTo_def)

lemma scansTo_char:
  "c \<noteq> CHR ''$'' \<Longrightarrow> scansTo [c] []"
  unfolding scansTo_def
proof
  fix rest
  assume "c \<noteq> CHR ''$''"
  then show "markersFrom None ([c] @ rest) = [] @ markersFrom None rest"
    by (cases rest) simp_all
qed

lemma scansTo_Cons:
  "c \<noteq> CHR ''$'' \<Longrightarrow> scansTo p ms \<Longrightarrow> scansTo (c # p) ms"
  using scansTo_append [OF scansTo_char, of c p ms] by simp

lemma scansTo_plain:
  "CHR ''$'' \<notin> set p \<Longrightarrow> scansTo p []"
  by (induction p) (auto simp: scansTo_Nil_iff intro: scansTo_Cons)

text \<open>A text without the two characters in a row that does not end in a dollar sign.\<close>

lemma scansTo_noMarker:
  "noMarker p \<Longrightarrow> p = [] \<or> last p \<noteq> CHR ''$'' \<Longrightarrow> scansTo p []"
proof (induction p rule: induct_list012)
  case 1
  then show ?case by (simp add: scansTo_Nil_iff)
next
  case (2 x)
  then show ?case by (simp add: scansTo_char)
next
  case (3 a b cs)
  then have t: "scansTo (b # cs) []"
    by simp
  show ?case
    unfolding scansTo_def
  proof
    fix rest
    from 3(3) have "\<not> (a = CHR ''$'' \<and> b = CHR ''{'')" by simp
    then have "markersFrom None ((a # b # cs) @ rest) = markersFrom None ((b # cs) @ rest)"
      by auto
    with t show "markersFrom None ((a # b # cs) @ rest) = [] @ markersFrom None rest"
      by (simp add: scansTo_def)
  qed
qed

lemma noMarker_append:
  "noMarker p \<Longrightarrow> noMarker q \<Longrightarrow>
   p = [] \<or> q = [] \<or> last p \<noteq> CHR ''$'' \<or> hd q \<noteq> CHR ''{'' \<Longrightarrow> noMarker (p @ q)"
proof (induction p rule: induct_list012)
  case 1
  then show ?case by simp
next
  case (2 x)
  then show ?case by (cases q) auto
next
  case (3 a b cs)
  then show ?case by auto
qed

lemma hexDigit_plain:
  assumes "k < 16"
  shows "hexDigit k \<noteq> CHR ''$''"
proof -
  have "list_all (\<lambda>k. hexDigit k \<noteq> CHR ''$'') [0..<16]"
    by code_simp
  with assms show ?thesis
    by (simp add: list_all_iff)
qed

lemma escapeChar_cases:
  obtains (special) a where "escapeChar c = [backslash, a]" "a \<noteq> CHR ''$''"
      "c \<noteq> CHR ''$''" "c \<noteq> CHR ''{''"
    | (low) a b where "escapeChar c = [backslash, CHR ''u'', CHR ''0'', CHR ''0'', a, b]"
      "a \<noteq> CHR ''$''" "b \<noteq> CHR ''$''" "c \<noteq> CHR ''$''" "c \<noteq> CHR ''{''"
    | (plain) "escapeChar c = [c]"
proof -
  consider "c = CHR 0x08" | "c = CHR 0x09" | "c = CHR 0x0A" | "c = CHR 0x0C" | "c = CHR 0x0D"
    | "c = dquote" | "c = backslash"
    | "\<not> (c = CHR 0x08 \<or> c = CHR 0x09 \<or> c = CHR 0x0A \<or> c = CHR 0x0C \<or> c = CHR 0x0D
      \<or> c = dquote \<or> c = backslash)" "(of_char c :: nat) < 0x20"
    | "\<not> (c = CHR 0x08 \<or> c = CHR 0x09 \<or> c = CHR 0x0A \<or> c = CHR 0x0C \<or> c = CHR 0x0D
      \<or> c = dquote \<or> c = backslash)" "\<not> (of_char c :: nat) < 0x20"
    by blast
  then show ?thesis
  proof cases
    case 1
    then show ?thesis by (intro special [of "CHR ''b''"]) (simp_all add: escapeChar_def)
  next
    case 2
    then show ?thesis by (intro special [of "CHR ''t''"]) (simp_all add: escapeChar_def)
  next
    case 3
    then show ?thesis by (intro special [of "CHR ''n''"]) (simp_all add: escapeChar_def)
  next
    case 4
    then show ?thesis by (intro special [of "CHR ''f''"]) (simp_all add: escapeChar_def)
  next
    case 5
    then show ?thesis by (intro special [of "CHR ''r''"]) (simp_all add: escapeChar_def)
  next
    case 6
    then show ?thesis
      by (intro special [of dquote]) (simp_all add: escapeChar_def dquote_def)
  next
    case 7
    then show ?thesis
      by (intro special [of backslash]) (simp_all add: escapeChar_def dquote_def backslash_def)
  next
    case 8
    from 8(2) have "hexDigit (of_char c div 16) \<noteq> CHR ''$''"
      by (intro hexDigit_plain) simp
    moreover have "hexDigit (of_char c mod 16) \<noteq> CHR ''$''"
      by (intro hexDigit_plain) simp
    moreover from 8(2) have "c \<noteq> CHR ''$''" "c \<noteq> CHR ''{''"
      by auto
    ultimately show ?thesis
      using 8 by (intro low [of "hexDigit (of_char c div 16)" "hexDigit (of_char c mod 16)"])
        (simp_all add: escapeChar_def)
  next
    case 9
    then show ?thesis by (intro plain) (simp add: escapeChar_def)
  qed
qed

lemma escapeChar_noMarker:
  "noMarker (escapeChar c)"
  "escapeChar c \<noteq> []"
  "last (escapeChar c) = CHR ''$'' \<longleftrightarrow> c = CHR ''$''"
  "hd (escapeChar c) = CHR ''{'' \<longleftrightarrow> c = CHR ''{''"
  by (cases c rule: escapeChar_cases; simp add: backslash_def)+

lemma escaped_noMarker:
  "noMarker s \<Longrightarrow> noMarker (concat (map escapeChar s))"
proof (induction s rule: induct_list012)
  case 1
  then show ?case by simp
next
  case (2 x)
  then show ?case by (simp add: escapeChar_noMarker)
next
  case (3 a b cs)
  have "hd (concat (map escapeChar (b # cs))) = hd (escapeChar b)"
    by (simp add: escapeChar_noMarker(2))
  with 3 escapeChar_noMarker [of a] escapeChar_noMarker(4) [of b]
  have "noMarker (escapeChar a @ concat (map escapeChar (b # cs)))"
    by (intro noMarker_append) auto
  then show ?case by simp
qed

lemma scansTo_quoteJSON:
  assumes "noMarker s"
  shows "scansTo (quoteJSON s) []"
proof -
  have "noMarker ((dquote # concat (map escapeChar s)) @ [dquote])"
  proof (rule noMarker_append)
    have "noMarker ([dquote] @ concat (map escapeChar s))"
      using assms by (intro noMarker_append) (simp_all add: escaped_noMarker dquote_def)
    then show "noMarker (dquote # concat (map escapeChar s))" by simp
  qed (simp_all add: dquote_def)
  then show ?thesis
    by (intro scansTo_noMarker) (simp_all add: quoteJSON_def dquote_def)
qed

lemma pool_chars:
  assumes "c \<in> set pool"
  shows "escapeChar c = [c]" and "c \<noteq> CHR ''}''"
proof -
  have "list_all (\<lambda>c. escapeChar c = [c] \<and> c \<noteq> CHR ''}'') pool"
    by code_simp
  with assms show "escapeChar c = [c]" and "c \<noteq> CHR ''}''"
    by (simp_all add: list_all_iff)
qed

lemma randomName_pool:
  "set (randomName rnd n) \<subseteq> set pool"
proof -
  have "length pool = 62"
    by (simp add: pool_def)
  then show ?thesis
    by (auto simp: randomName_def)
qed

lemma escaped_plain:
  "(\<And>c. c \<in> set t \<Longrightarrow> escapeChar c = [c]) \<Longrightarrow> concat (map escapeChar t) = t"
  by (induction t) simp_all

lemma markersFrom_name:
  "CHR ''}'' \<notin> set t \<Longrightarrow>
   markersFrom (Some nm) (t @ CHR ''}'' # rest) = (nm @ t) # markersFrom None rest"
  by (induction t arbitrary: nm) auto

lemma scansTo_marker:
  "scansTo (quoteJSON (marker (randomName rnd n))) [randomName rnd n]"
proof -
  let ?t = "randomName rnd n"
  have p: "\<And>c. c \<in> set ?t \<Longrightarrow> escapeChar c = [c]" and b: "CHR ''}'' \<notin> set ?t"
    using randomName_pool [of rnd n] pool_chars by auto
  have e: "escapeChar (CHR ''$'') = ''$''" "escapeChar (CHR ''{'') = ''{''"
    "escapeChar (CHR ''}'') = ''}''"
    by (simp_all add: escapeChar_def dquote_def backslash_def)
  have q: "quoteJSON (marker ?t) = dquote # CHR ''$'' # CHR ''{'' # ?t @ CHR ''}'' # [dquote]"
    by (simp add: quoteJSON_def marker_def e escaped_plain [OF p])
  have d: "dquote \<noteq> CHR ''$''"
    by (simp add: dquote_def)
  show ?thesis
    unfolding scansTo_def q
  proof
    fix rest
    from scansTo_char [OF d]
    have "markersFrom None (dquote # rest) = markersFrom None rest"
      by (simp add: scansTo_def)
    with d b show "markersFrom None ((dquote # CHR ''$'' # CHR ''{'' # ?t @ CHR ''}'' # [dquote]) @ rest)
        = [?t] @ markersFrom None rest"
      by (simp add: markersFrom_name)
  qed
qed

lemma scansTo_join_Cons:
  assumes "scansTo p ms" and "scansTo sep []" and "scansTo (join sep ps) ns"
  shows "scansTo (join sep (p # ps)) (ms @ ns)"
proof (cases ps)
  case Nil
  with assms(3) have "ns = []"
    by (simp add: scansTo_Nil_iff)
  with Nil assms(1) show ?thesis by simp
next
  case (Cons y ys)
  from scansTo_append [OF assms(1) scansTo_append [OF assms(2,3)]] Cons
  show ?thesis by simp
qed

lemma scansTo_wrap:
  assumes "opening \<noteq> CHR ''$''" and "closing \<noteq> CHR ''$''"
    and "CHR ''$'' \<notin> set gap" and "CHR ''$'' \<notin> set stepback"
    and "scansTo (join (if gap = [] then '','' else CHR '','' # newline # (stepback @ gap)) parts) ms"
  shows "scansTo (wrap opening closing gap stepback parts) ms"
proof (cases "parts = []")
  case True
  with assms show ?thesis
    by (simp add: wrap_def scansTo_Nil_iff scansTo_plain)
next
  case False
  have c: "scansTo [closing] []"
    using assms(2) by (rule scansTo_char)
  show ?thesis
  proof (cases "gap = []")
    case True
    with assms(5) have "scansTo (join '','' parts @ [closing]) (ms @ [])"
      by (intro scansTo_append c) simp
    with True False assms(1) show ?thesis
      by (simp add: wrap_def scansTo_Cons)
  next
    case g: False
    have "scansTo (newline # stepback @ gap) []" "scansTo (newline # stepback @ [closing]) []"
      using assms(2,3,4) by (intro scansTo_plain; simp add: newline_def)+
    with assms(5) g
    have "scansTo ((newline # stepback @ gap)
        @ join (CHR '','' # newline # (stepback @ gap)) parts @ (newline # stepback @ [closing]))
        ([] @ ms @ [])"
      by (intro scansTo_append) simp_all
    with g False assms(1) show ?thesis
      by (simp add: wrap_def scansTo_Cons)
  qed
qed

lemma extractor_scan:
  assumes gap: "CHR ''$'' \<notin> set gap"
  shows
  "\<forall>v' ps n' indent. markerFree v \<longrightarrow> getIntrinsicFunctions shape rnd v n = (v', ps, n') \<longrightarrow>
     CHR ''$'' \<notin> set indent \<longrightarrow> scansTo (serialize gap v' indent) (map fst ps)"
  "\<forall>v' ps n' indent. markerFree v \<longrightarrow> visitValue shape rnd v n = (v', ps, n') \<longrightarrow>
     CHR ''$'' \<notin> set indent \<longrightarrow> scansTo (serialize gap v' indent) (map fst ps)"
  "\<forall>kvs' ps n' indent sep. markerFreeProps kvs \<longrightarrow> visitProps shape rnd kvs n = (kvs', ps, n') \<longrightarrow>
     CHR ''$'' \<notin> set indent \<longrightarrow> scansTo sep [] \<longrightarrow>
     scansTo (join sep (serializeProps gap kvs' indent)) (map fst ps)"
  "\<forall>xs' ps n' indent sep. markerFreeList xs \<longrightarrow> visitItems shape rnd xs n = (xs', ps, n') \<longrightarrow>
     CHR ''$'' \<notin> set indent \<longrightarrow> scansTo sep [] \<longrightarrow>
     scansTo (join sep (serializeElements gap xs' indent)) (map fst ps)"
  "\<forall>ys' ps n' indent sep. markerFreeList ys \<longrightarrow> visitElements shape rnd ys n = (ys', ps, n') \<longrightarrow>
     CHR ''$'' \<notin> set indent \<longrightarrow> scansTo sep [] \<longrightarrow>
     scansTo (join sep (serializeElements gap ys' indent)) (map fst ps)"
proof (induction shape rnd v n and shape rnd v n and shape rnd kvs n and shape rnd xs n
        and shape rnd ys n
      rule: getIntrinsicFunctions_visitValue_visitProps_visitItems_visitElements.induct)
  case (1 shape rnd kvs n)
  show ?case
  proof (intro allI impI)
    fix v' ps n' indent
    assume m: "markerFree (JObj kvs)"
      and r: "getIntrinsicFunctions shape rnd (JObj kvs) n = (v', ps, n')"
      and i: "CHR ''$'' \<notin> set indent"
    from r obtain kvs' where k: "visitProps shape rnd kvs n = (kvs', ps, n')" and v: "v' = JObj kvs'"
      by (auto split: prod.splits)
    let ?sep = "if gap = [] then '','' else CHR '','' # newline # (indent @ gap)"
    have "scansTo ?sep []"
      using gap i by (intro scansTo_plain) (simp add: newline_def)
    with 1 m k gap i
    have "scansTo (join ?sep (serializeProps gap kvs' (indent @ gap))) (map fst ps)"
      by simp
    with gap i v show "scansTo (serialize gap v' indent) (map fst ps)"
      by (simp add: scansTo_wrap)
  qed
next
  case (2 shape rnd xs n)
  show ?case
  proof (intro allI impI)
    fix v' ps n' indent
    assume m: "markerFree (JArr xs)"
      and r: "getIntrinsicFunctions shape rnd (JArr xs) n = (v', ps, n')"
      and i: "CHR ''$'' \<notin> set indent"
    from r obtain xs' where k: "visitItems shape rnd xs n = (xs', ps, n')" and v: "v' = JArr xs'"
      by (auto split: prod.splits)
    let ?sep = "if gap = [] then '','' else CHR '','' # newline # (indent @ gap)"
    have "scansTo ?sep []"
      using gap i by (intro scansTo_plain) (simp add: newline_def)
    with 2 m k gap i
    have "scansTo (join ?sep (serializeElements gap xs' (indent @ gap))) (map fst ps)"
      by simp
    with gap i v show "scansTo (serialize gap v' indent) (map fst ps)"
      by (simp add: scansTo_wrap)
  qed
next
  case (3 shape rnd s n)
  then show ?case by (simp add: scansTo_quoteJSON)
next
  case (4 shape rnd i n)
  then show ?case by (simp add: scansTo_plain numberToJSON_plain)
next
  case (5 shape rnd b n)
  then show ?case by (simp add: scansTo_plain)
next
  case (6 shape rnd n)
  then show ?case by (simp add: scansTo_plain)
next
  case (7 shape rnd xs n)
  show ?case
  proof (intro allI impI)
    fix v' ps n' indent
    assume m: "markerFree (JArr xs)"
      and r: "visitValue shape rnd (JArr xs) n = (v', ps, n')"
      and i: "CHR ''$'' \<notin> set indent"
    from r obtain xs' where k: "visitElements shape rnd xs n = (xs', ps, n')" and v: "v' = JArr xs'"
      by (auto split: prod.splits)
    let ?sep = "if gap = [] then '','' else CHR '','' # newline # (indent @ gap)"
    have "scansTo ?sep []"
      using gap i by (intro scansTo_plain) (simp add: newline_def)
    with 7 m k gap i
    have "scansTo (join ?sep (serializeElements gap xs' (indent @ gap))) (map fst ps)"
      by simp
    with gap i v show "scansTo (serialize gap v' indent) (map fst ps)"
      by (simp add: scansTo_wrap)
  qed
next
  case (8 shape rnd kvs n)
  then show ?case
    by (auto simp: scansTo_marker simp del: getIntrinsicFunctions.simps)
next
  case (9 shape rnd n)
  then show ?case by (simp add: scansTo_plain)
next
  case (10 shape rnd s n)
  then show ?case by (simp add: scansTo_quoteJSON)
next
  case (11 shape rnd i n)
  then show ?case by (simp add: scansTo_plain numberToJSON_plain)
next
  case (12 shape rnd b n)
  then show ?case by (simp add: scansTo_plain)
next
  case (13 shape rnd n)
  then show ?case by (simp add: scansTo_Nil_iff)
next
  case (14 shape rnd key v rest n)
  show ?case
  proof (intro allI impI)
    fix kvs' ps n' indent sep
    assume m: "markerFreeProps ((key, v) # rest)"
      and r: "visitProps shape rnd ((key, v) # rest) n = (kvs', ps, n')"
      and i: "CHR ''$'' \<notin> set indent" and s: "scansTo sep []"
    from r obtain v' ps1 n1 rest' ps2 where
      a: "visitValue shape rnd v n = (v', ps1, n1)"
      and b: "visitProps shape rnd rest n1 = (rest', ps2, n')"
      and c: "kvs' = (key, v') # rest'" "ps = ps1 @ ps2"
      by (auto split: prod.splits)
    from 14(1) m a i have v: "scansTo (serialize gap v' indent) (map fst ps1)"
      by simp
    from 14(2) [OF a [symmetric] refl] m b i s
    have t: "scansTo (join sep (serializeProps gap rest' indent)) (map fst ps2)"
      by simp
    from m have "scansTo (quoteJSON key) []"
      by (simp add: scansTo_quoteJSON)
    moreover have "scansTo ('':'' @ (if gap = [] then [] else '' '')) []"
      by (intro scansTo_plain) simp
    ultimately have "scansTo (quoteJSON key @ ('':'' @ (if gap = [] then [] else '' ''))
        @ serialize gap v' indent) ([] @ [] @ map fst ps1)"
      using v by (intro scansTo_append)
    then have "scansTo (serializeProp gap (key, v') indent) (map fst ps1)"
      by simp
    from scansTo_join_Cons [OF this s t] c
    show "scansTo (join sep (serializeProps gap kvs' indent)) (map fst ps)"
      by simp
  qed
next
  case (15 shape rnd n)
  then show ?case by (simp add: scansTo_Nil_iff)
next
  case (16 shape rnd v rest n)
  show ?case
  proof (intro allI impI)
    fix xs' ps n' indent sep
    assume m: "markerFreeList (v # rest)"
      and r: "visitItems shape rnd (v # rest) n = (xs', ps, n')"
      and i: "CHR ''$'' \<notin> set indent" and s: "scansTo sep []"
    from r obtain v' ps1 n1 rest' ps2 where
      a: "visitValue shape rnd v n = (v', ps1, n1)"
      and b: "visitItems shape rnd rest n1 = (rest', ps2, n')"
      and c: "xs' = v' # rest'" "ps = ps1 @ ps2"
      by (auto split: prod.splits)
    from 16(1) m a i have v: "scansTo (serialize gap v' indent) (map fst ps1)"
      by simp
    from 16(2) [OF a [symmetric] refl] m b i s
    have t: "scansTo (join sep (serializeElements gap rest' indent)) (map fst ps2)"
      by simp
    from scansTo_join_Cons [OF v s t] c
    show "scansTo (join sep (serializeElements gap xs' indent)) (map fst ps)"
      by simp
  qed
next
  case (17 shape rnd n)
  then show ?case by (simp add: scansTo_Nil_iff)
next
  case (18 shape rnd x rest n)
  show ?case
  proof (intro allI impI)
    fix ys' ps n' indent sep
    assume m: "markerFreeList (x # rest)"
      and r: "visitElements shape rnd (x # rest) n = (ys', ps, n')"
      and i: "CHR ''$'' \<notin> set indent" and s: "scansTo sep []"
    from r obtain x' ps1 n1 rest' ps2 where
      a: "getIntrinsicFunctions shape rnd x n = (x', ps1, n1)"
      and b: "visitElements shape rnd rest n1 = (rest', ps2, n')"
      and c: "ys' = x' # rest'" "ps = ps1 @ ps2"
      by (auto split: prod.splits)
    from 18(1) m a i have v: "scansTo (serialize gap x' indent) (map fst ps1)"
      by simp
    from 18(2) [OF a [symmetric] refl] m b i s
    have t: "scansTo (join sep (serializeElements gap rest' indent)) (map fst ps2)"
      by simp
    from scansTo_join_Cons [OF v s t] c
    show "scansTo (join sep (serializeElements gap ys' indent)) (map fst ps)"
      by simp
  qed
qed

lemma markers_extracted:
  assumes "markerFree d" and "getIntrinsicFunctions shape rnd d n = (d', ps, n')"
  shows "markers (JSON_stringify ''  '' d') = map fst ps"
proof -
  have "CHR ''$'' \<notin> set ''  ''" by simp
  from extractor_scan(1) [OF this, of d shape rnd n] assms
  have "scansTo (serialize ''  '' d' []) (map fst ps)"
    by simp
  then have "markersFrom None (serialize ''  '' d' [] @ []) = map fst ps @ markersFrom None []"
    unfolding scansTo_def by blast
  then show ?thesis
    by (simp add: markers_def JSON_stringify_def)
qed

lemma fold_update_keys:
  "fst ` set (fold (\<lambda>(k, v) obj. AList.update k v obj) ps obj) = fst ` set obj \<union> fst ` set ps"
  by (induction ps arbitrary: obj) (auto simp: dom_update split: prod.splits)

lemma fold_update_distinct_keys:
  "distinct (map fst obj) \<Longrightarrow>
   distinct (map fst (fold (\<lambda>(k, v) obj. AList.update k v obj) ps obj))"
  by (induction ps arbitrary: obj) (auto simp: distinct_update split: prod.splits)

lemma fromPairs_keys:
  "fst ` set (fromPairs ps) = fst ` set ps" "distinct (map fst (fromPairs ps))"
  by (simp_all add: fromPairs_def fold_update_keys fold_update_distinct_keys)

lemma assembleDefinition_document:
  assumes "\<forall>s. d \<noteq> JStr s"
    and "getIntrinsicFunctions (intrinsicShape env) (randomSource env) d (names st) = (d', ps, n')"
  shows "assembleDefinition env d st =
     (st\<lparr>names := n'\<rparr>,
      if ps = [] then Text (JSON_stringify ''  '' d')
      else FnSub (JSON_stringify ''  '' d')
             (fromPairs (map (\<lambda>(k, v). (k, translateLocalFunctionNames env v)) ps)))"
  using assms by (cases d) (auto simp: assembleDefinition_def)

section \<open>Properties of the compiler\<close>

lemma compileTemplate_Inr:
  assumes "compileTemplate env smn obj st = (st', Inr r)"
  shows "\<exists>ptags ds ds' tags'. toTags (providerTags env) = Inr ptags \<and> joiValidate env obj = None
     \<and> compileDefinition env smn obj st = (st', Inr ds) \<and> pinVersion env obj ds = Inr ds'
     \<and> addTags obj ptags = Inr tags'
     \<and> r = \<lparr>Type = ''AWS::StepFunctions::StateMachine'',
             Properties = \<lparr>DefinitionString = ds', RoleArn = fst (resolveRole obj), Tags = tags',
                StateMachineName = (if truthy (sm_name obj) then sm_name obj else None)\<rparr>,
             DependsOn = addDependsOn obj (snd (resolveRole obj))\<rparr>"
  using assms unfolding compileTemplate_def
  by (auto split: sum.splits option.splits prod.splits)

lemma lintDefinition_names:
  "lintDefinition env smn d st = (st', res) \<Longrightarrow> names st' = names st \<and> template st' = template st"
  by (auto simp: lintDefinition_def split: if_splits prod.splits)

lemma compileDefinition_string:
  assumes "sm_definition obj = Some (JStr s)" "s \<noteq> []"
    and "compileDefinition env smn obj st = (st', Inr ds)"
  shows "ds = Some (Text (stripEscapes (quoteJSON s))) \<and> names st' = names st"
  using assms
  by (auto simp: compileDefinition_def assembleDefinition_def truthy_def JSON_stringify_def
      split: prod.splits option.splits dest: lintDefinition_names)

lemma pinVersion_Text:
  "pinVersion env obj (Some (Text t)) = Inr ds' \<Longrightarrow> ds' = Some (Text t)"
  by (auto simp: pinVersion_def split: if_splits)

lemma pinVersion_cases:
  "sm_useExactVersion obj \<noteq> Some (JBool True) \<Longrightarrow> pinVersion env obj ds = Inr ds"
  "sm_useExactVersion obj = Some (JBool True) \<Longrightarrow>
     pinVersion env obj (Some (FnSub t ps)) = Inr (Some (FnSub t (mapValues (convertToFunctionVersion env) ps)))"
  "pinVersion env obj (Some (Text t)) = Inr (Some (Text t))"
  by (auto simp: pinVersion_def)




lemma compileTemplate_rejected:
  assumes "toTags (providerTags env) = Inr ptags" and "joiValidate env obj = Some err"
  shows "compileTemplate env smn obj st = (st, Inl (ServerlessError (malformedMessage smn err)))"
  using assms by (simp add: compileTemplate_def)

lemma compileTemplate_invalid:
  assumes "toTags (providerTags env) = Inr ptags" and "joiValidate env obj = None"
    and "sm_definition obj = Some d" and "truthy (Some d)" and "truthy (validate env)"
    and "\<not> fst (aslValidator env d)"
  shows "compileTemplate env smn obj st
     = (st, Inl (ServerlessError (invalidMessage smn (snd (aslValidator env d)))))"
  using assms
  by (cases "aslValidator env d")
     (simp add: compileTemplate_def compileDefinition_def lintDefinition_def)

lemma compileStateMachines_error:
  "compileTemplate env smn obj st = (st', Inl e) \<Longrightarrow>
   compileStateMachines env ((smn, obj) # rest) st = (st', Some e)"
  by (simp add: compileStateMachine_def)

text \<open>The concrete runs.\<close>

lemma stringMachine_run:
  "compileTemplate exampleEnv ''hello'' stringMachine emptyState =
     (emptyState,
      Inr \<lparr>Type = ''AWS::StepFunctions::StateMachine'',
           Properties = \<lparr>DefinitionString = Some (Text (dquote # ''definition1'' @ [dquote])),
              RoleArn = JObj [(''Fn::GetAtt'', JArr [JStr ''IamRoleStateMachineExecution'', JStr ''Arn''])],
              Tags = [\<lparr>Key = JStr ''a'', Value = ''1''\<rparr>],
              StateMachineName = None\<rparr>,
           DependsOn = [JStr ''IamRoleStateMachineExecution'']\<rparr>)"
  by code_simp

lemma taskMachine_definition:
  "compileDefinition exampleEnv ''hello'' (taskMachine (Some (JBool True))) emptyState
     = (emptyState\<lparr>names := 1\<rparr>, Inr (Some (FnSub taskText taskParams)))"
  "compileDefinition exampleEnv ''hello'' (taskMachine (Some (JStr ''true''))) emptyState
     = (emptyState\<lparr>names := 1\<rparr>, Inr (Some (FnSub taskText taskParams)))"
  "compileDefinition exampleEnv ''hello'' (taskMachine (Some (JNum (Decimal 1 0)))) emptyState
     = (emptyState\<lparr>names := 1\<rparr>, Inr (Some (FnSub taskText taskParams)))"
  by code_simp+

lemma taskMachine_run:
  "compileTemplate exampleEnv ''hello'' (taskMachine (Some (JBool True))) emptyState
     = (emptyState\<lparr>names := 1\<rparr>,
        Inr (taskTemplate (FnSub taskText
          [(''abcdefghij'', JObj [(''version'', JObj [(''translated'',
              JObj [(''Fn::GetAtt'', JArr [JStr ''Fn1'', JStr ''Arn''])])])])])))"
  "compileTemplate exampleEnv ''hello'' (taskMachine (Some (JStr ''true''))) emptyState
     = (emptyState\<lparr>names := 1\<rparr>, Inr (taskTemplate (FnSub taskText taskParams)))"
  "compileTemplate exampleEnv ''hello'' (taskMachine (Some (JNum (Decimal 1 0)))) emptyState
     = (emptyState\<lparr>names := 1\<rparr>, Inr (taskTemplate (FnSub taskText taskParams)))"
  by code_simp+

lemma roleMachine_run:
  "compileTemplate exampleEnv ''hello'' roleMachine emptyState
     = (emptyState,
        Inr \<lparr>Type = ''AWS::StepFunctions::StateMachine'',
             Properties = \<lparr>DefinitionString = None,
                RoleArn = JStr ''arn:aws:iam::1:role/run'',
                Tags = [\<lparr>Key = JStr ''a'', Value = ''1''\<rparr>, \<lparr>Key = JStr ''b'', Value = ''2''\<rparr>],
                StateMachineName = None\<rparr>,
             DependsOn = [JStr ''B'', JStr ''A'', JStr ''B'']\<rparr>)"
  by code_simp


lemma plainMachine_run:
  "compileTemplate exampleEnv ''hello'' plainMachine emptyState
     = (emptyState,
        Inr \<lparr>Type = ''AWS::StepFunctions::StateMachine'',
             Properties = \<lparr>DefinitionString = None,
                RoleArn = JObj [(''Fn::GetAtt'',
                  JArr [JStr ''IamRoleStateMachineExecution'', JStr ''Arn''])],
                Tags = [\<lparr>Key = JStr ''a'', Value = ''1''\<rparr>],
                StateMachineName = None\<rparr>,
             DependsOn = [JStr ''IamRoleStateMachineExecution'', JStr ''Queue'']\<rparr>)"
  by code_simp

section \<open>The claims about the compiler\<close>

text \<open>
  C2 (as amended). For every definition document that is not a string and has no dollar
  sign followed by an opening brace in any of its strings and keys: when the assembler
  builds a substitution template, the names of the markers in its text are exactly the keys
  of its parameter map, each key once in the map; when it gives a plain text, the text has
  no marker.
\<close>

theorem C2_markers_are_parameters:
  assumes "markerFree d" and "\<forall>s. d \<noteq> JStr s"
  shows "case snd (assembleDefinition env d st) of
           Text t \<Rightarrow> markers t = []
         | FnSub t params \<Rightarrow>
             set (markers t) = fst ` set params \<and> distinct (map fst params)"
proof -
  obtain d' ps n' where
    g: "getIntrinsicFunctions (intrinsicShape env) (randomSource env) d (names st) = (d', ps, n')"
    by (cases "getIntrinsicFunctions (intrinsicShape env) (randomSource env) d (names st)")
  from markers_extracted [OF assms(1) g]
  have m: "markers (JSON_stringify ''  '' d') = map fst ps" .
  have k: "fst ` set (map (\<lambda>(k, v). (k, translateLocalFunctionNames env v)) ps) = fst ` set ps"
    by force
  from m k show ?thesis
    by (simp add: assembleDefinition_document [OF assms(2) g] fromPairs_keys)
qed

text \<open>The task definition of the end-to-end example: one marker, one parameter.\<close>

theorem C2_witness:
  "markerFree taskDefinition
   \<and> (case snd (assembleDefinition exampleEnv taskDefinition emptyState) of
        Text t \<Rightarrow> False
      | FnSub t params \<Rightarrow> set (markers t) = {''abcdefghij''} \<and> map fst params = [''abcdefghij''])"
proof -
  have a: "markerFree taskDefinition"
    by (simp add: taskDefinition_def)
  have b: "\<forall>s. taskDefinition \<noteq> JStr s"
    by (simp add: taskDefinition_def)
  have c: "snd (assembleDefinition exampleEnv taskDefinition emptyState) = FnSub taskText taskParams"
    by code_simp
  from C2_markers_are_parameters [OF a b, of exampleEnv emptyState] a c show ?thesis
    by (simp add: taskParams_def)
qed

text \<open>
  C2 as stated fails: with the comment \<^verbatim>\<open>${AWS::Region}\<close> next to a reference, the text
  has the two markers \<^verbatim>\<open>AWS::Region\<close> and \<^verbatim>\<open>abcdefghij\<close>, the parameter map the one key
  \<^verbatim>\<open>abcdefghij\<close>.
\<close>

theorem C2_counterexample:
  "(case snd (assembleDefinition exampleEnv regionDefinition emptyState) of
      Text t \<Rightarrow> False
    | FnSub t params \<Rightarrow>
        markers t = [''AWS::Region'', ''abcdefghij''] \<and> map fst params = [''abcdefghij''])"
  by code_simp

text \<open>
  C3 (as amended). When the definition of an entry is a non-empty string and the entry
  compiles, the definition text of its resource record is the JSON string literal of that
  string (in double quotes, the quotes, backslashes and control characters inside it
  escaped) from which every backslash followed by \<^verbatim>\<open>n\<close> or \<^verbatim>\<open>r\<close> has been removed with
  that letter; the extractor is not run: no parameter name is drawn.
\<close>

theorem C3_string_definition:
  assumes "sm_definition obj = Some (JStr s)" and "s \<noteq> []"
    and "compileTemplate env stateMachineName obj st = (st', Inr r)"
  shows "DefinitionString (Properties r) = Some (Text (stripEscapes (quoteJSON s)))
     \<and> names st' = names st"
proof -
  from compileTemplate_Inr [OF assms(3)] obtain ds ds' where
    d: "compileDefinition env stateMachineName obj st = (st', Inr ds)"
    and p: "pinVersion env obj ds = Inr ds'"
    and r: "DefinitionString (Properties r) = ds'"
    by auto
  from compileDefinition_string [OF assms(1,2) d]
  have "ds = Some (Text (stripEscapes (quoteJSON s)))" and n: "names st' = names st"
    by simp_all
  with p r show ?thesis
    by (auto dest: pinVersion_Text)
qed

text \<open>The string \<^verbatim>\<open>definition1\<close> followed by a line feed, as the definition of an entry.\<close>

theorem C3_witness:
  "sm_definition stringMachine = Some (JStr (''definition1'' @ [newline]))
   \<and> ''definition1'' @ [newline] \<noteq> []
   \<and> DefinitionString (Properties
        \<lparr>Type = ''AWS::StepFunctions::StateMachine'',
           Properties = \<lparr>DefinitionString = Some (Text (dquote # ''definition1'' @ [dquote])),
              RoleArn = JObj [(''Fn::GetAtt'', JArr [JStr ''IamRoleStateMachineExecution'', JStr ''Arn''])],
              Tags = [\<lparr>Key = JStr ''a'', Value = ''1''\<rparr>],
              StateMachineName = None\<rparr>,
           DependsOn = [JStr ''IamRoleStateMachineExecution'']\<rparr>)
       = Some (Text (stripEscapes (quoteJSON (''definition1'' @ [newline]))))"
proof -
  have d: "sm_definition stringMachine = Some (JStr (''definition1'' @ [newline]))"
    by (simp add: stringMachine_def emptyStateMachine_def)
  have n: "''definition1'' @ [newline] \<noteq> []"
    by simp
  from C3_string_definition [OF d n stringMachine_run] d n show ?thesis
    by simp
qed

text \<open>
  C3 as stated fails: for the definition \<^verbatim>\<open>definition1\<close> followed by a line feed the text
  of the record is \<^verbatim>\<open>"definition1"\<close>, double quotes included, and not the input without
  its line feed.
\<close>

theorem C3_counterexample:
  "map_sum id (\<lambda>r. DefinitionString (Properties r))
       (snd (compileTemplate exampleEnv ''hello'' stringMachine emptyState))
     = Inr (Some (Text (dquote # ''definition1'' @ [dquote])))
   \<and> dquote # ''definition1'' @ [dquote] \<noteq> ''definition1''"
  by (simp add: stringMachine_run)






text \<open>
  C6. For every entry that compiles: a role that is supplied (a truthy \<^verbatim>\<open>role\<close>, which is
  how the source tests it) is the role reference of the record as it is, and the
  dependency list is what the entry declares; otherwise the role reference is the
  \<^verbatim>\<open>Arn\<close> of \<^verbatim>\<open>IamRoleStateMachineExecution\<close> and that name is the first dependency,
  followed by what the entry declares. What the entry declares is the elements of
  \<^verbatim>\<open>dependsOn\<close> when it is an array, in their order and with their repetitions, and the one
  value when it is a single (truthy) value.
\<close>

theorem C6_role_and_dependencies:
  assumes "compileTemplate env stateMachineName obj st = (st', Inr r)"
  shows "(\<forall>role. sm_role obj = Some role \<and> truthy (Some role) \<longrightarrow>
            RoleArn (Properties r) = role
            \<and> DependsOn r =
                (case sm_dependsOn obj of
                   Some (JArr xs) \<Rightarrow> xs
                 | Some d \<Rightarrow> if truthy (Some d) then [d] else []
                 | None \<Rightarrow> []))
     \<and> (\<not> truthy (sm_role obj) \<longrightarrow>
            RoleArn (Properties r)
              = JObj [(''Fn::GetAtt'', JArr [JStr ''IamRoleStateMachineExecution'', JStr ''Arn''])]
            \<and> DependsOn r =
                JStr ''IamRoleStateMachineExecution'' #
                (case sm_dependsOn obj of
                   Some (JArr xs) \<Rightarrow> xs
                 | Some d \<Rightarrow> if truthy (Some d) then [d] else []
                 | None \<Rightarrow> []))"
proof -
  from compileTemplate_Inr [OF assms] have
    "RoleArn (Properties r) = fst (resolveRole obj)"
    "DependsOn r = addDependsOn obj (snd (resolveRole obj))"
    by auto
  then show ?thesis
    by (auto simp: resolveRole_def addDependsOn_def executionRole_def
        split: option.splits json.splits)
qed

text \<open>
  An entry with a role and three declared dependencies, two of them the same, and an entry
  with neither a role nor an array.
\<close>

theorem C6_witness:
  "(\<exists>st' r. compileTemplate exampleEnv ''hello'' roleMachine emptyState = (st', Inr r)
      \<and> sm_role roleMachine = Some (JStr ''arn:aws:iam::1:role/run'')
      \<and> truthy (Some (JStr ''arn:aws:iam::1:role/run''))
      \<and> RoleArn (Properties r) = JStr ''arn:aws:iam::1:role/run''
      \<and> DependsOn r = [JStr ''B'', JStr ''A'', JStr ''B''])
   \<and> (\<exists>st' r. compileTemplate exampleEnv ''hello'' plainMachine emptyState = (st', Inr r)
      \<and> \<not> truthy (sm_role plainMachine)
      \<and> DependsOn r = [JStr ''IamRoleStateMachineExecution'', JStr ''Queue''])"
proof -
  have a: "sm_role roleMachine = Some (JStr ''arn:aws:iam::1:role/run'')"
    and b: "truthy (Some (JStr ''arn:aws:iam::1:role/run''))"
    and c: "sm_dependsOn roleMachine = Some (JArr [JStr ''B'', JStr ''A'', JStr ''B''])"
    and d: "\<not> truthy (sm_role plainMachine)"
    and e: "sm_dependsOn plainMachine = Some (JStr ''Queue'')"
    by (simp_all add: roleMachine_def plainMachine_def emptyStateMachine_def truthy_def)
  from C6_role_and_dependencies [OF roleMachine_run] a b c
  have "\<exists>st' r. compileTemplate exampleEnv ''hello'' roleMachine emptyState = (st', Inr r)
      \<and> sm_role roleMachine = Some (JStr ''arn:aws:iam::1:role/run'')
      \<and> truthy (Some (JStr ''arn:aws:iam::1:role/run''))
      \<and> RoleArn (Properties r) = JStr ''arn:aws:iam::1:role/run''
      \<and> DependsOn r = [JStr ''B'', JStr ''A'', JStr ''B'']"
    using roleMachine_run by simp
  moreover from C6_role_and_dependencies [OF plainMachine_run] d e
  have "\<exists>st' r. compileTemplate exampleEnv ''hello'' plainMachine emptyState = (st', Inr r)
      \<and> \<not> truthy (sm_role plainMachine)
      \<and> DependsOn r = [JStr ''IamRoleStateMachineExecution'', JStr ''Queue'']"
    using plainMachine_run by (simp add: truthy_def)
  ultimately show ?thesis
    by blast
qed




text \<open>
  C8. When the schema rejects an entry, or the linter is enabled and finds its definition
  invalid, the run ends at that entry with an error and the state is the one the entry
  started from: nothing is merged into the compiled template, no parameter name is drawn
  (the assembler has not run), and the remaining entries are not compiled. The error is a
  message that contains the name of the entry, unless already the provider's tags could
  not be normalized, which line 73 does before the entry is validated.
\<close>

theorem C8_validation_aborts:
  assumes "joiValidate env obj \<noteq> None
         \<or> (\<exists>d. sm_definition obj = Some d \<and> truthy (Some d) \<and> truthy (validate env)
                \<and> \<not> fst (aslValidator env d))"
  shows "\<exists>e. compileStateMachines env ((stateMachineName, obj) # rest) st = (st, Some e)
     \<and> (\<forall>ptags. toTags (providerTags env) = Inr ptags \<longrightarrow>
           (\<exists>before after. e = ServerlessError (before @ stateMachineName @ after)))"
proof (cases "toTags (providerTags env)")
  case (Inl e)
  then have "compileTemplate env stateMachineName obj st = (st, Inl e)"
    by (simp add: compileTemplate_def)
  from compileStateMachines_error [OF this] Inl show ?thesis
    by simp
next
  case (Inr ptags)
  show ?thesis
  proof (cases "joiValidate env obj")
    case (Some err)
    have "malformedMessage stateMachineName err
        = ''State machine ['' @ stateMachineName
            @ (''] is malformed. '' @ ''Please check the README for more info. '' @ err)"
      by (simp add: malformedMessage_def)
    with compileStateMachines_error [OF compileTemplate_rejected [OF Inr Some]]
    show ?thesis by metis
  next
    case None
    with assms obtain d where d: "sm_definition obj = Some d" "truthy (Some d)"
      "truthy (validate env)" "\<not> fst (aslValidator env d)"
      by auto
    have "\<exists>before after. invalidMessage stateMachineName (snd (aslValidator env d))
        = before @ stateMachineName @ after"
      unfolding invalidMessage_def join.simps
      by (metis append.assoc)
    with compileStateMachines_error [OF compileTemplate_invalid [OF Inr None d]]
    show ?thesis by metis
  qed
qed

text \<open>A schema that rejects every entry, and a linter that rejects an array.\<close>

theorem C8_witness:
  "toTags (providerTags rejectingEnv) = Inr [\<lparr>Key = JStr ''a'', Value = ''1''\<rparr>]
   \<and> joiValidate rejectingEnv plainMachine \<noteq> None
   \<and> (\<exists>before after.
        compileStateMachines rejectingEnv [(''hello'', plainMachine), (''other'', roleMachine)]
          emptyState
        = (emptyState, Some (ServerlessError (before @ ''hello'' @ after))))
   \<and> toTags (providerTags lintingEnv) = Inr [\<lparr>Key = JStr ''a'', Value = ''1''\<rparr>]
   \<and> truthy (validate lintingEnv) \<and> \<not> fst (aslValidator lintingEnv (JArr []))
   \<and> (\<exists>before after.
        compileStateMachines lintingEnv [(''hello'', brokenMachine), (''other'', roleMachine)]
          emptyState
        = (emptyState, Some (ServerlessError (before @ ''hello'' @ after))))"
proof -
  have a: "toTags (providerTags rejectingEnv) = Inr [\<lparr>Key = JStr ''a'', Value = ''1''\<rparr>]"
    and b: "toTags (providerTags lintingEnv) = Inr [\<lparr>Key = JStr ''a'', Value = ''1''\<rparr>]"
    by code_simp+
  have c: "joiValidate rejectingEnv plainMachine \<noteq> None"
    by (simp add: rejectingEnv_def)
  have d: "sm_definition brokenMachine = Some (JArr [])" "truthy (Some (JArr []))"
    "truthy (validate lintingEnv)" "\<not> fst (aslValidator lintingEnv (JArr []))"
    by (simp_all add: brokenMachine_def emptyStateMachine_def truthy_def lintingEnv_def
        exampleEnv_def)
  from d have e: "joiValidate lintingEnv brokenMachine \<noteq> None
         \<or> (\<exists>d. sm_definition brokenMachine = Some d \<and> truthy (Some d)
                \<and> truthy (validate lintingEnv) \<and> \<not> fst (aslValidator lintingEnv d))"
    by blast
  from c have f: "joiValidate rejectingEnv plainMachine \<noteq> None
         \<or> (\<exists>d. sm_definition plainMachine = Some d \<and> truthy (Some d)
                \<and> truthy (validate rejectingEnv) \<and> \<not> fst (aslValidator rejectingEnv d))"
    by blast
  from C8_validation_aborts [OF f, of "''hello''" "[(''other'', roleMachine)]" emptyState] a
  have "\<exists>before after.
        compileStateMachines rejectingEnv [(''hello'', plainMachine), (''other'', roleMachine)]
          emptyState
        = (emptyState, Some (ServerlessError (before @ ''hello'' @ after)))"
    by metis
  moreover
  from C8_validation_aborts [OF e, of "''hello''" "[(''other'', roleMachine)]" emptyState] b
  have "\<exists>before after.
        compileStateMachines lintingEnv [(''hello'', brokenMachine), (''other'', roleMachine)]
          emptyState
        = (emptyState, Some (ServerlessError (before @ ''hello'' @ after)))"
    by metis
  ultimately show ?thesis
    using a b c d by blast
qed

text \<open>
  C9. For every entry that compiles to a substitution template, a \<^verbatim>\<open>useExactVersion\<close>
  that is not exactly the boolean true (the string \<^verbatim>\<open>true\<close> or the number 1, say) leaves
  the parameter map as the assembler built it: no value goes through
  \<^verbatim>\<open>convertToFunctionVersion\<close>.
\<close>

theorem C9_exactly_true:
  assumes "compileTemplate env stateMachineName obj st = (st', Inr r)"
    and "sm_useExactVersion obj \<noteq> Some (JBool True)"
    and "compileDefinition env stateMachineName obj st = (st', Inr (Some (FnSub t params)))"
  shows "DefinitionString (Properties r) = Some (FnSub t params)"
proof -
  from compileTemplate_Inr [OF assms(1)] obtain ds ds' where
    d: "compileDefinition env stateMachineName obj st = (st', Inr ds)"
    and p: "pinVersion env obj ds = Inr ds'"
    and r: "DefinitionString (Properties r) = ds'"
    by auto
  from d assms(3) have "ds = Some (FnSub t params)" by simp
  with p r assms(2) show ?thesis
    by (simp add: pinVersion_cases(1))
qed

text \<open>The same task definition with the flag the string \<^verbatim>\<open>true\<close>, and the number 1.\<close>

theorem C9_witness:
  "sm_useExactVersion (taskMachine (Some (JStr ''true''))) \<noteq> Some (JBool True)
   \<and> sm_useExactVersion (taskMachine (Some (JNum (Decimal 1 0)))) \<noteq> Some (JBool True)
   \<and> DefinitionString (Properties (taskTemplate (FnSub taskText taskParams)))
       = Some (FnSub taskText taskParams)"
proof -
  have f: "sm_useExactVersion (taskMachine (Some (JStr ''true''))) \<noteq> Some (JBool True)"
    and g: "sm_useExactVersion (taskMachine (Some (JNum (Decimal 1 0)))) \<noteq> Some (JBool True)"
    by (simp_all add: taskMachine_def emptyStateMachine_def)
  from C9_exactly_true [OF taskMachine_run(2) f taskMachine_definition(2)]
    C9_exactly_true [OF taskMachine_run(3) g taskMachine_definition(3)] f g
  show ?thesis
    by simp
qed

text \<open>
  C10. An entry that passes the schema with no \<^verbatim>\<open>definition\<close> field and with
  \<^verbatim>\<open>useExactVersion\<close> true ends the run with the TypeError of reading \<^verbatim>\<open>'Fn::Sub'\<close> of
  the undefined \<^verbatim>\<open>DefinitionString\<close>; nothing is merged.
\<close>

theorem C10_missing_definition:
  assumes "toTags (providerTags env) = Inr ptags" and "joiValidate env obj = None"
    and "sm_definition obj = None" and "sm_useExactVersion obj = Some (JBool True)"
  shows "compileStateMachine env stateMachineName obj st
     = (st, Some (TypeError ''DefinitionString[Fn::Sub]''))"
  using assms
  by (simp add: compileStateMachine_def compileTemplate_def compileDefinition_def pinVersion_def)

text \<open>An entry with nothing but the flag.\<close>

theorem C10_witness:
  "toTags (providerTags exampleEnv) = Inr [\<lparr>Key = JStr ''a'', Value = ''1''\<rparr>]
   \<and> joiValidate exampleEnv (emptyStateMachine\<lparr>sm_useExactVersion := Some (JBool True)\<rparr>) = None
   \<and> compileStateMachine exampleEnv ''hello''
        (emptyStateMachine\<lparr>sm_useExactVersion := Some (JBool True)\<rparr>) emptyState
       = (emptyState, Some (TypeError ''DefinitionString[Fn::Sub]''))"
proof -
  have a: "toTags (providerTags exampleEnv) = Inr [\<lparr>Key = JStr ''a'', Value = ''1''\<rparr>]"
    by code_simp
  have b: "joiValidate exampleEnv (emptyStateMachine\<lparr>sm_useExactVersion := Some (JBool True)\<rparr>) = None"
    by (simp add: exampleEnv_def)
  have c: "sm_definition (emptyStateMachine\<lparr>sm_useExactVersion := Some (JBool True)\<rparr>) = None"
    and d: "sm_useExactVersion (emptyStateMachine\<lparr>sm_useExactVersion := Some (JBool True)\<rparr>)
             = Some (JBool True)"
    by (simp_all add: emptyStateMachine_def)
  from C10_missing_definition [OF a b c d] a b show ?thesis
    by simp
qed

end
